theory Spec2Isabelle
  imports Main
begin

section \<open>JavaScript strings\<close>

text \<open>
  A JavaScript string is a sequence of UTF-16 code units. The texts the program handles are
  modelled as \<^typ>\<open>string\<close>, a \<^typ>\<open>char\<close> being a code unit below 256 (ASCII and
  Latin-1); texts with a code unit above 255 are outside the model.

  \<open>toLowerCase\<close> exchanges the letters \<open>A\<close> to \<open>Z\<close> and the Latin-1 capitals (\<open>0xC0\<close> to
  \<open>0xDE\<close> without the multiplication sign \<open>0xD7\<close>) for their small forms and keeps every
  other code unit; its result stays below 256. \<open>toUpperCase\<close> exchanges the letters \<open>a\<close>
  to \<open>z\<close> and the Latin-1 small letters (\<open>0xE0\<close> to \<open>0xFE\<close> without the division sign
  \<open>0xF7\<close>) for their capitals; it writes \<open>SS\<close> for the sharp s \<open>0xDF\<close>, \<open>U+039C\<close> for the
  micro sign \<open>0xB5\<close> and \<open>U+0178\<close> for \<open>0xFF\<close>, and keeps every other code unit. Its result
  can leave the range, so it is given as the list of its code units, and \<open>units\<close> gives
  the code units of a text of the program to compare with.

  \<open>trim\<close> removes from both ends the white space and line terminators of ECMAScript that
  lie below 256: tab, line feed, vertical tab, form feed, carriage return, space and the
  no-break space \<open>0xA0\<close>.
\<close>

definition ascii_lower :: string where
  "ascii_lower = ''abcdefghijklmnopqrstuvwxyz''"

definition ascii_upper :: string where
  "ascii_upper = ''ABCDEFGHIJKLMNOPQRSTUVWXYZ''"

definition latin1_lower :: string where
  "latin1_lower =
     [CHR 0xE0, CHR 0xE1, CHR 0xE2, CHR 0xE3, CHR 0xE4, CHR 0xE5, CHR 0xE6, CHR 0xE7, CHR 0xE8,
      CHR 0xE9, CHR 0xEA, CHR 0xEB, CHR 0xEC, CHR 0xED, CHR 0xEE, CHR 0xEF, CHR 0xF0, CHR 0xF1,
      CHR 0xF2, CHR 0xF3, CHR 0xF4, CHR 0xF5, CHR 0xF6, CHR 0xF8, CHR 0xF9, CHR 0xFA, CHR 0xFB,
      CHR 0xFC, CHR 0xFD, CHR 0xFE]"

definition latin1_upper :: string where
  "latin1_upper =
     [CHR 0xC0, CHR 0xC1, CHR 0xC2, CHR 0xC3, CHR 0xC4, CHR 0xC5, CHR 0xC6, CHR 0xC7, CHR 0xC8,
      CHR 0xC9, CHR 0xCA, CHR 0xCB, CHR 0xCC, CHR 0xCD, CHR 0xCE, CHR 0xCF, CHR 0xD0, CHR 0xD1,
      CHR 0xD2, CHR 0xD3, CHR 0xD4, CHR 0xD5, CHR 0xD6, CHR 0xD8, CHR 0xD9, CHR 0xDA, CHR 0xDB,
      CHR 0xDC, CHR 0xDD, CHR 0xDE]"

definition lower_letters :: string where
  "lower_letters = ascii_lower @ latin1_lower"

definition upper_letters :: string where
  "upper_letters = ascii_upper @ latin1_upper"

definition toLowerChar :: "char \<Rightarrow> char" where
  "toLowerChar c = (case map_of (zip upper_letters lower_letters) c of Some l \<Rightarrow> l | None \<Rightarrow> c)"

definition toUpperChar :: "char \<Rightarrow> char" where
  "toUpperChar c = (case map_of (zip lower_letters upper_letters) c of Some u \<Rightarrow> u | None \<Rightarrow> c)"

definition toLowerCase :: "string \<Rightarrow> string" where
  "toLowerCase s = map toLowerChar s"

type_synonym code_units = "nat list"

definition units :: "string \<Rightarrow> code_units" where
  "units s = map of_char s"

definition upperUnits :: "char \<Rightarrow> code_units" where
  "upperUnits c =
     (if c = CHR 0xDF then [0x53, 0x53]
      else if c = CHR 0xB5 then [0x39C]
      else if c = CHR 0xFF then [0x178]
      else [of_char (toUpperChar c)])"

definition toUpperCase :: "string \<Rightarrow> code_units" where
  "toUpperCase s = concat (map upperUnits s)"

definition isWhiteSpace :: "char \<Rightarrow> bool" where
  "isWhiteSpace c =
     (c \<in> set [CHR 0x09, CHR 0x0A, CHR 0x0B, CHR 0x0C, CHR 0x0D, CHR '' '', CHR 0xA0])"

definition trim :: "string \<Rightarrow> string" where
  "trim s = rev (dropWhile isWhiteSpace (rev (dropWhile isWhiteSpace s)))"

section \<open>Orders as the two vendors return them\<close>

text \<open>
  The Shopify GraphQL node selected by \<open>fetchShopifyOrdersUpdatedSince\<close>: \<open>id\<close>, \<open>name\<close>,
  \<open>updatedAt\<close> and \<open>shippingAddress { validationResultSummary }\<close>. The shipping address
  and the summary are nullable; \<open>None\<close> stands for \<open>null\<close> and for a missing field.
\<close>

record shopify_address =
  validationResultSummary :: "string option"

record shopify_order =
  o_id :: string
  o_name :: string
  updatedAt :: string
  shippingAddress :: "shopify_address option"

text \<open>
  The ShipStation order of \<open>GET /orders\<close>, with the fields the two services read.
  \<open>orderId\<close> is a number; \<open>0\<close> is its only falsy value here.
\<close>

record shipstation_address =
  addressVerified :: "string option"

record shipstation_order =
  orderId :: int
  orderNumber :: "string option"
  orderKey :: "string option"
  shipTo :: "shipstation_address option"

section \<open>Classifiers\<close>

text \<open>\<open>normalize(s)\<close> is \<open>String(s ?? "").trim()\<close>.\<close>

definition normalize :: "string option \<Rightarrow> string" where
  "normalize s = trim (case s of None \<Rightarrow> [] | Some t \<Rightarrow> t)"

text \<open>\<open>order?.shippingAddress?.validationResultSummary\<close>\<close>

definition summary_of :: "shopify_order \<Rightarrow> string option" where
  "summary_of ord =
     (case shippingAddress ord of None \<Rightarrow> None | Some a \<Rightarrow> validationResultSummary a)"

definition isShopifyAddressIssue :: "shopify_order \<Rightarrow> bool" where
  "isShopifyAddressIssue ord =
     (let v = toUpperCase (normalize (summary_of ord))
      in v = units ''WARNING'' \<or> v = units ''ERROR'')"

definition ADDRESS_FAILED_VALUE :: string where
  "ADDRESS_FAILED_VALUE = ''Address validation failed''"

text \<open>\<open>order?.shipTo?.addressVerified\<close>, then \<open>String(av || "")\<close>.\<close>

definition addressVerified_of :: "shipstation_order \<Rightarrow> string option" where
  "addressVerified_of ord =
     (case shipTo ord of None \<Rightarrow> None | Some a \<Rightarrow> addressVerified a)"

definition isAddressVerificationFailed :: "shipstation_order \<Rightarrow> bool" where
  "isAddressVerificationFailed ord =
     (let av = addressVerified_of ord
      in toLowerCase (case av of None \<Rightarrow> [] | Some t \<Rightarrow> t) = toLowerCase ADDRESS_FAILED_VALUE)"

section \<open>The SQLite store of the Shopify poller\<close>

text \<open>
  A table is the list of its rows in insertion order. An instant is a number of
  milliseconds; the ISO-8601 text that \<open>toISOString\<close> writes for an instant is identified
  with the instant, and so is the text of \<open>CURRENT_TIMESTAMP\<close>. The only key the program
  keeps in \<open>state\<close> is \<open>last_shopify_poll_iso\<close>, whose value is such a text. The surrogate
  \<open>id\<close> column of \<open>processed\<close> is assigned by the engine and never read by the program;
  it is left out. Statements on the store always succeed in this model.
\<close>

type_synonym timestamp = int

record state_row =
  st_key :: string
  st_value :: timestamp
  st_updated_at :: timestamp

record processed_row =
  shopify_order_gid :: string
  shopify_order_name :: "string option"
  shipstation_order_id :: "int option"
  status :: string
  note_text :: "string option"
  created_at :: timestamp
  updated_at :: timestamp

record database =
  state_tbl :: "state_row list"
  processed :: "processed_row list"

text \<open>\<open>CREATE TABLE IF NOT EXISTS\<close> on a new database file.\<close>

definition initDatabase :: database where
  "initDatabase = \<lparr>state_tbl = [], processed = []\<rparr>"

definition getState :: "database \<Rightarrow> string \<Rightarrow> timestamp option" where
  "getState db k = map_option st_value (find (\<lambda>r. st_key r = k) (state_tbl db))"

text \<open>\<open>INSERT INTO state ... ON CONFLICT(key) DO UPDATE SET value, updated_at\<close>\<close>

definition setState :: "string \<Rightarrow> timestamp \<Rightarrow> timestamp \<Rightarrow> database \<Rightarrow> database" where
  "setState k v now db =
     (if k \<in> st_key ` set (state_tbl db)
      then db\<lparr>state_tbl :=
             map (\<lambda>r. if st_key r = k then r\<lparr>st_value := v, st_updated_at := now\<rparr> else r)
               (state_tbl db)\<rparr>
      else db\<lparr>state_tbl :=
             state_tbl db @ [\<lparr>st_key = k, st_value = v, st_updated_at = now\<rparr>]\<rparr>)"

text \<open>\<open>SELECT 1 FROM processed WHERE shopify_order_gid = ? LIMIT 1\<close>\<close>

definition wasProcessed :: "database \<Rightarrow> string \<Rightarrow> bool" where
  "wasProcessed db gid = (find (\<lambda>r. shopify_order_gid r = gid) (processed db) \<noteq> None)"

text \<open>
  The argument object of \<open>markProcessed\<close>. The function binds
  \<open>shipstationOrderId || null\<close> and \<open>note || null\<close>: a zero id and an empty note are
  stored as \<open>NULL\<close>.
\<close>

record mark_args =
  shopifyOrderGid :: string
  shopifyOrderName :: string
  shipstationOrderId :: "int option"
  m_status :: string
  m_note :: "string option"

definition id_or_null :: "int option \<Rightarrow> int option" where
  "id_or_null v = (if v = Some 0 then None else v)"

definition note_or_null :: "string option \<Rightarrow> string option" where
  "note_or_null v = (if v = Some [] then None else v)"

text \<open>
  \<open>INSERT INTO processed ... ON CONFLICT(shopify_order_gid) DO UPDATE SET ...\<close>, run at
  the instant \<open>now\<close> of \<open>CURRENT_TIMESTAMP\<close>. The conflict target is the
  \<open>UNIQUE(shopify_order_gid)\<close> constraint of the table.
\<close>

definition markProcessed :: "mark_args \<Rightarrow> timestamp \<Rightarrow> database \<Rightarrow> database" where
  "markProcessed a now db =
     (if wasProcessed db (shopifyOrderGid a)
      then db\<lparr>processed :=
             map (\<lambda>r. if shopify_order_gid r = shopifyOrderGid a
                       then r\<lparr>shopify_order_name := Some (shopifyOrderName a),
                              shipstation_order_id := id_or_null (shipstationOrderId a),
                              status := m_status a,
                              note_text := note_or_null (m_note a),
                              updated_at := now\<rparr>
                       else r)
               (processed db)\<rparr>
      else db\<lparr>processed :=
             processed db @
               [\<lparr>shopify_order_gid = shopifyOrderGid a,
                 shopify_order_name = Some (shopifyOrderName a),
                 shipstation_order_id = id_or_null (shipstationOrderId a),
                 status = m_status a,
                 note_text = note_or_null (m_note a),
                 created_at = now,
                 updated_at = now\<rparr>]\<rparr>)"

section \<open>The store of the ShipStation scanner\<close>

record srv_row =
  srv_shipstation_order_id :: int
  srv_order_number :: "string option"
  srv_status :: string
  srv_note :: "string option"
  srv_created_at :: timestamp
  srv_updated_at :: timestamp

text \<open>\<open>SELECT 1 FROM processed WHERE shipstation_order_id = ? LIMIT 1\<close>\<close>

definition wasProcessed_srv :: "srv_row list \<Rightarrow> int \<Rightarrow> bool" where
  "wasProcessed_srv rows oid = (find (\<lambda>r. srv_shipstation_order_id r = oid) rows \<noteq> None)"

text \<open>
  \<open>markProcessed(shipstationOrderId, orderNumber, status, note)\<close> of
  \<open>address-issue-server.js\<close>: on conflict only \<open>status\<close>, \<open>note\<close> and \<open>updated_at\<close> are set.
\<close>

definition markProcessed_srv ::
    "int \<Rightarrow> string \<Rightarrow> string \<Rightarrow> string \<Rightarrow> timestamp \<Rightarrow> srv_row list \<Rightarrow> srv_row list" where
  "markProcessed_srv oid num st nt now rows =
     (if wasProcessed_srv rows oid
      then map (\<lambda>r. if srv_shipstation_order_id r = oid
                     then r\<lparr>srv_status := st, srv_note := Some nt, srv_updated_at := now\<rparr>
                     else r) rows
      else rows @
             [\<lparr>srv_shipstation_order_id = oid,
               srv_order_number = Some num,
               srv_status = st,
               srv_note = Some nt,
               srv_created_at = now,
               srv_updated_at = now\<rparr>])"

section \<open>The outside world\<close>

text \<open>
  A request made through axios either resolves with the response data or rejects. Of a
  rejection the program reads \<open>e.response?.data\<close> (here already as the text that
  \<open>JSON.stringify\<close> gives, \<open>None\<close> when it is missing or falsy) and \<open>e.message\<close>.
\<close>

record js_error =
  response_data :: "string option"
  message :: string

datatype 'a http = Resolved 'a | Rejected js_error

text \<open>\<open>throw new Error(msg)\<close>\<close>

definition Error :: "string \<Rightarrow> js_error" where
  "Error msg = \<lparr>response_data = None, message = msg\<rparr>"

text \<open>
  The body of a Shopify GraphQL response: \<open>gql_errors\<close> is the JSON text of a
  non-empty \<open>errors\<close> array (\<open>None\<close> when \<open>resp.data?.errors?.length\<close> is falsy),
  \<open>gql_orders\<close> is \<open>resp.data?.data?.orders\<close>, and \<open>edges\<close> holds the nodes of the edges.
\<close>

record page_info =
  hasNextPage :: bool
  endCursor :: "string option"

record orders_connection =
  edges :: "shopify_order list"
  pageInfo :: "page_info option"

record graphql_body =
  gql_errors :: "string option"
  gql_orders :: "orders_connection option"

text \<open>The requests sent to ShipStation during a pass, oldest first.\<close>

datatype ss_request = GetOrders string | AddTag int int

text \<open>
  What the world answers while one order is processed: the \<open>GET /orders\<close> endpoint for a
  given \<open>orderNumber\<close>, the \<open>POST /orders/addtag\<close> endpoint for a given order id and tag
  id, and the instant of \<open>CURRENT_TIMESTAMP\<close> for the row written.
\<close>

record order_world =
  get_orders :: "string \<Rightarrow> shipstation_order list http"
  add_tag :: "int \<Rightarrow> int \<Rightarrow> unit http"
  db_now :: timestamp

text \<open>
  What the world answers during one pass. \<open>clock_poll_started\<close> is the reading of
  \<open>new Date()\<close> printed in the "Poll started" banner, the first statement of \<open>pollOnce\<close>;
  \<open>clock_first_run\<close> is the \<open>Date.now()\<close> of \<open>isoMinutesAgo\<close>; \<open>shopify_post\<close> answers the
  request for the orders updated since an instant (with the configured extra query),
  given the ordinal of the request and its \<open>after\<close> cursor; \<open>clock_after_fetch\<close> is the reading of \<open>new Date()\<close> that
  \<open>newSince\<close> takes; \<open>per_order\<close> gives the world of the k-th loop iteration;
  \<open>clock_setState\<close> is the \<open>CURRENT_TIMESTAMP\<close> of the final \<open>setState\<close>.
\<close>

record pass_world =
  clock_poll_started :: timestamp
  clock_first_run :: timestamp
  shopify_post :: "timestamp \<Rightarrow> nat \<Rightarrow> string option \<Rightarrow> graphql_body http"
  clock_after_fetch :: timestamp
  per_order :: "nat \<Rightarrow> order_world"
  clock_setState :: timestamp

record config =
  ADDRESS_ISSUE_TAG_NAME :: string
  LOOKBACK_MINUTES_ON_FIRST_RUN :: int

section \<open>Fetching from Shopify\<close>

definition edges_of :: "graphql_body \<Rightarrow> shopify_order list" where
  "edges_of body = (case gql_orders body of None \<Rightarrow> [] | Some c \<Rightarrow> edges c)"

definition pageInfo_of :: "graphql_body \<Rightarrow> page_info option" where
  "pageInfo_of body = (case gql_orders body of None \<Rightarrow> None | Some c \<Rightarrow> pageInfo c)"

text \<open>
  The \<open>while (true)\<close> loop of \<open>fetchShopifyOrdersUpdatedSince\<close>. \<open>None\<close> is a loop that
  never ends (a provider that always reports a next page).
\<close>

partial_function (option) fetch_pages ::
    "(nat \<Rightarrow> string option \<Rightarrow> graphql_body http) \<Rightarrow> string option \<Rightarrow> nat \<Rightarrow>
     shopify_order list \<Rightarrow> (js_error + shopify_order list) option" where
  "fetch_pages post after page results =
     (case post page after of
        Rejected e \<Rightarrow> Some (Inl e)
      | Resolved body \<Rightarrow>
          (case gql_errors body of
             Some js \<Rightarrow> Some (Inl (Error (''Shopify GraphQL errors: '' @ js)))
           | None \<Rightarrow>
               (case pageInfo_of body of
                  None \<Rightarrow> Some (Inr (results @ edges_of body))
                | Some pi \<Rightarrow>
                    if \<not> hasNextPage pi then Some (Inr (results @ edges_of body))
                    else fetch_pages post (endCursor pi) (page + 1) (results @ edges_of body))))"

definition fetchShopifyOrdersUpdatedSince ::
    "pass_world \<Rightarrow> timestamp \<Rightarrow> (js_error + shopify_order list) option" where
  "fetchShopifyOrdersUpdatedSince w sinceISO = fetch_pages (shopify_post w sinceISO) None 1 []"

section \<open>Business logic of the Shopify poller\<close>

text \<open>
  \<open>findShipStationOrder\<close>: the request is inside \<open>try\<close>, and the \<open>catch\<close> returns \<open>null\<close>;
  otherwise \<open>orders[0] || null\<close>.
\<close>

definition findShipStationOrder ::
    "(string \<Rightarrow> shipstation_order list http) \<Rightarrow> string \<Rightarrow> shipstation_order option" where
  "findShipStationOrder client num =
     (case client num of
        Resolved found \<Rightarrow> (case found of [] \<Rightarrow> None | x # _ \<Rightarrow> Some x)
      | Rejected e \<Rightarrow> None)"

text \<open>\<open>String(name || "").replace("#", "").trim()\<close>; \<open>replace\<close> with a string pattern
  removes the first occurrence only.\<close>

definition orderNumberFromShopifyName :: "string \<Rightarrow> string" where
  "orderNumberFromShopifyName nm = trim (remove1 (CHR ''#'') nm)"

definition isoMinutesAgo :: "timestamp \<Rightarrow> int \<Rightarrow> timestamp" where
  "isoMinutesAgo now minutes = now - minutes * 60 * 1000"

text \<open>\<open>e.response?.data ? JSON.stringify(e.response.data) : e.message\<close>\<close>

definition error_msg :: "js_error \<Rightarrow> string" where
  "error_msg e = (case response_data e of Some d \<Rightarrow> d | None \<Rightarrow> message e)"

text \<open>The variables of a pass: the database, the six counters, the requests sent.\<close>

record poll_run =
  run_db :: database
  inspected :: nat
  addressIssues :: nat
  newlyTagged :: nat
  notInShipStation :: nat
  skippedAlready :: nat
  errors :: nat
  requests :: "ss_request list"

definition start_run :: "database \<Rightarrow> poll_run" where
  "start_run db =
     \<lparr>run_db = db, inspected = 0, addressIssues = 0, newlyTagged = 0, notInShipStation = 0,
      skippedAlready = 0, errors = 0, requests = []\<rparr>"

text \<open>
  The body of the \<open>for (const o of orders)\<close> loop of \<open>pollOnce\<close>. The lines written to
  the console and the pause of 200 ms that ends an iteration are left out.
\<close>

definition process_order ::
    "config \<Rightarrow> order_world \<Rightarrow> int \<Rightarrow> shopify_order \<Rightarrow> poll_run \<Rightarrow> poll_run" where
  "process_order cfg w tagId ord r0 =
     (let r1 = r0\<lparr>inspected := inspected r0 + 1\<rparr>;
          summary = normalize (summary_of ord)
      in if \<not> isShopifyAddressIssue ord then r1
         else
           let r2 = r1\<lparr>addressIssues := addressIssues r1 + 1\<rparr>
           in if wasProcessed (run_db r2) (o_id ord)
              then r2\<lparr>skippedAlready := skippedAlready r2 + 1\<rparr>
              else
                let num = orderNumberFromShopifyName (o_name ord)
                in if num = [] then r2
                   else
                     let r3 = r2\<lparr>requests := requests r2 @ [GetOrders num]\<rparr>
                     in (case findShipStationOrder (get_orders w) num of
                           None \<Rightarrow>
                             r3\<lparr>notInShipStation := notInShipStation r3 + 1,
                                run_db := markProcessed
                                  \<lparr>shopifyOrderGid = o_id ord,
                                   shopifyOrderName = o_name ord,
                                   shipstationOrderId = None,
                                   m_status = ''not_found'',
                                   m_note = Some ''Not found in ShipStation yet''\<rparr>
                                  (db_now w) (run_db r3)\<rparr>
                         | Some ssOrder \<Rightarrow>
                             let r4 = r3\<lparr>requests :=
                                         requests r3 @ [AddTag (orderId ssOrder) tagId]\<rparr>
                             in (case add_tag w (orderId ssOrder) tagId of
                                   Resolved u \<Rightarrow>
                                     r4\<lparr>newlyTagged := newlyTagged r4 + 1,
                                        run_db := markProcessed
                                          \<lparr>shopifyOrderGid = o_id ord,
                                           shopifyOrderName = o_name ord,
                                           shipstationOrderId = Some (orderId ssOrder),
                                           m_status = ''tagged'',
                                           m_note = Some (''Tagged '' @ ADDRESS_ISSUE_TAG_NAME cfg
                                             @ '' (Shopify validation='' @ summary @ '')'')\<rparr>
                                          (db_now w) (run_db r4)\<rparr>
                                 | Rejected e \<Rightarrow>
                                     r4\<lparr>errors := errors r4 + 1,
                                        run_db := markProcessed
                                          \<lparr>shopifyOrderGid = o_id ord,
                                           shopifyOrderName = o_name ord,
                                           shipstationOrderId = None,
                                           m_status = ''error'',
                                           m_note = Some (error_msg e)\<rparr>
                                          (db_now w) (run_db r4)\<rparr>)))"

fun poll_loop ::
    "config \<Rightarrow> (nat \<Rightarrow> order_world) \<Rightarrow> int \<Rightarrow> nat \<Rightarrow> shopify_order list \<Rightarrow> poll_run \<Rightarrow> poll_run"
    where
  "poll_loop cfg ws tagId k [] r = r"
| "poll_loop cfg ws tagId k (ord # rest) r =
     poll_loop cfg ws tagId (Suc k) rest (process_order cfg (ws k) tagId ord r)"

text \<open>
  \<open>pollOnce\<close>. A rejection leaves the database as it was when the pass began, and is
  returned with it; \<open>None\<close> is a pass whose fetch never ends.
\<close>

definition since_of :: "config \<Rightarrow> pass_world \<Rightarrow> database \<Rightarrow> timestamp" where
  "since_of cfg w db =
     (case getState db ''last_shopify_poll_iso'' of
        None \<Rightarrow> isoMinutesAgo (clock_first_run w) (LOOKBACK_MINUTES_ON_FIRST_RUN cfg)
      | Some s \<Rightarrow> s)"

definition pollOnce ::
    "config \<Rightarrow> pass_world \<Rightarrow> int \<Rightarrow> database \<Rightarrow> ((js_error \<times> database) + poll_run) option" where
  "pollOnce cfg w tagId db =
     (let since = since_of cfg w db
      in case fetchShopifyOrdersUpdatedSince w since of
           None \<Rightarrow> None
         | Some (Inl e) \<Rightarrow> Some (Inl (e, db))
         | Some (Inr orders) \<Rightarrow>
             let newSince = clock_after_fetch w;
                 r = poll_loop cfg (per_order w) tagId 0 orders (start_run db)
             in Some (Inr (r\<lparr>run_db :=
                  setState ''last_shopify_poll_iso'' newSince (clock_setState w) (run_db r)\<rparr>)))"

text \<open>The database a pass leaves behind, whatever its outcome.\<close>

definition db_after :: "database \<Rightarrow> ((js_error \<times> database) + poll_run) option \<Rightarrow> database" where
  "db_after db res =
     (case res of None \<Rightarrow> db | Some (Inl (e, db')) \<Rightarrow> db' | Some (Inr r) \<Rightarrow> run_db r)"

text \<open>
  The same pass cut at two of its \<open>await\<close>s, where another pass can run in between: the
  lines up to \<open>newSince\<close> (read the watermark, fetch, read the clock), the loop over the
  fetched orders on the database as it is then, and the final \<open>setState\<close> of \<open>newSince\<close>.
  \<open>pass_locals\<close> are the local variables \<open>orders\<close> and \<open>newSince\<close> that the pass carries
  from one stretch to the next.
\<close>

record pass_locals =
  pl_orders :: "shopify_order list"
  pl_newSince :: timestamp

definition pass_fetch :: "config \<Rightarrow> pass_world \<Rightarrow> database \<Rightarrow> (js_error + pass_locals) option" where
  "pass_fetch cfg w db =
     (case fetchShopifyOrdersUpdatedSince w (since_of cfg w db) of
        None \<Rightarrow> None
      | Some (Inl e) \<Rightarrow> Some (Inl e)
      | Some (Inr orders) \<Rightarrow> Some (Inr \<lparr>pl_orders = orders, pl_newSince = clock_after_fetch w\<rparr>))"

definition pass_loop :: "config \<Rightarrow> pass_world \<Rightarrow> int \<Rightarrow> pass_locals \<Rightarrow> database \<Rightarrow> poll_run" where
  "pass_loop cfg w tagId l db = poll_loop cfg (per_order w) tagId 0 (pl_orders l) (start_run db)"

definition pass_store :: "pass_world \<Rightarrow> pass_locals \<Rightarrow> database \<Rightarrow> database" where
  "pass_store w l db = setState ''last_shopify_poll_iso'' (pl_newSince l) (clock_setState w) db"

section \<open>Business logic of the ShipStation scanner\<close>

text \<open>The variables of \<open>scanAndTagAddressIssues\<close>: the ledger, the counters, the requests.\<close>

record scan_run =
  scan_rows :: "srv_row list"
  foundFailed :: nat
  srv_newlyTagged :: nat
  srv_skippedAlready :: nat
  srv_requests :: "ss_request list"

text \<open>\<open>order.orderNumber || order.orderKey || ""\<close>\<close>

definition orderNumber_of :: "shipstation_order \<Rightarrow> string" where
  "orderNumber_of ord =
     (case orderNumber ord of
        Some (c # cs) \<Rightarrow> c # cs
      | _ \<Rightarrow> (case orderKey ord of Some (c # cs) \<Rightarrow> c # cs | _ \<Rightarrow> []))"

text \<open>
  The body of the \<open>for (const order of orders)\<close> loop; \<open>tag\<close> answers
  \<open>POST /orders/addtag\<close> and \<open>now\<close> is the \<open>CURRENT_TIMESTAMP\<close> of the row written.
\<close>

definition scan_order ::
    "(int \<Rightarrow> int \<Rightarrow> unit http) \<Rightarrow> timestamp \<Rightarrow> int \<Rightarrow> shipstation_order \<Rightarrow> scan_run \<Rightarrow> scan_run"
    where
  "scan_order tag now tagId ord r0 =
     (let oid = orderId ord;
          num = orderNumber_of ord
      in if oid = 0 then r0
         else if \<not> isAddressVerificationFailed ord then r0
         else
           let r1 = r0\<lparr>foundFailed := foundFailed r0 + 1\<rparr>
           in if wasProcessed_srv (scan_rows r1) oid
              then r1\<lparr>srv_skippedAlready := srv_skippedAlready r1 + 1\<rparr>
              else
                let r2 = r1\<lparr>srv_requests := srv_requests r1 @ [AddTag oid tagId]\<rparr>
                in (case tag oid tagId of
                      Resolved u \<Rightarrow>
                        r2\<lparr>scan_rows := markProcessed_srv oid num ''tagged''
                                          ''Tagged ADDRESS ISSUE'' now (scan_rows r2),
                           srv_newlyTagged := srv_newlyTagged r2 + 1\<rparr>
                    | Rejected e \<Rightarrow>
                        r2\<lparr>scan_rows := markProcessed_srv oid num ''error''
                                          (error_msg e) now (scan_rows r2)\<rparr>))"

section \<open>The scheduler\<close>

text \<open>
  \<open>start()\<close> of both services ends with
  \<^verbatim>\<open>await pollOnce(tagId); setInterval(() => { pollOnce(tagId).catch(...) }, POLL_INTERVAL_MS)\<close>
  and a rejection of \<open>start()\<close> itself ends the process. The scheduler's state is whether
  \<open>setInterval\<close> has been reached, how many passes have been started and have not
  settled, and whether the process has exited. Three events move it: the interval
  elapsing, which runs the callback, and a running pass resolving or rejecting.
  \<open>start\<close> is the state in which the first pass has just been called: when that pass
  resolves, \<open>setInterval\<close> is reached; when it rejects, the process exits. A later pass
  that rejects is caught and logged. The callback calls \<open>pollOnce\<close> and tests nothing.
  Time is the order of the events: a pass that takes longer than the interval is a pass
  during which the interval elapses.
\<close>

datatype sched_event = IntervalElapsed | PassResolved | PassRejected

record scheduler =
  interval_set :: bool
  passes_running :: nat
  exited :: bool

definition start :: scheduler where
  "start = \<lparr>interval_set = False, passes_running = 1, exited = False\<rparr>"

fun on_event :: "scheduler \<Rightarrow> sched_event \<Rightarrow> scheduler" where
  "on_event s IntervalElapsed =
     (if exited s \<or> \<not> interval_set s then s
      else s\<lparr>passes_running := passes_running s + 1\<rparr>)"
| "on_event s PassResolved =
     (if exited s \<or> passes_running s = 0 then s
      else if interval_set s then s\<lparr>passes_running := passes_running s - 1\<rparr>
      else s\<lparr>interval_set := True, passes_running := 0\<rparr>)"
| "on_event s PassRejected =
     (if exited s \<or> passes_running s = 0 then s
      else if interval_set s then s\<lparr>passes_running := passes_running s - 1\<rparr>
      else s\<lparr>passes_running := 0, exited := True\<rparr>)"

definition run_events :: "sched_event list \<Rightarrow> scheduler" where
  "run_events es = foldl on_event start es"

section \<open>Histories of the ledger\<close>

text \<open>
  A history is a sequence of passes and of direct calls of \<open>markProcessed\<close>, begun on the
  database that \<open>initDatabase\<close> creates.
\<close>

datatype ledger_action = Pass config pass_world int | Mark mark_args timestamp

fun apply_action :: "database \<Rightarrow> ledger_action \<Rightarrow> database" where
  "apply_action db (Pass cfg w tagId) = db_after db (pollOnce cfg w tagId db)"
| "apply_action db (Mark a now) = markProcessed a now db"


text \<open>The readings of the clock that the passes of a history take for \<open>newSince\<close>.\<close>

fun reading :: "ledger_action \<Rightarrow> timestamp list" where
  "reading (Pass cfg w tagId) = [clock_after_fetch w]"
| "reading (Mark a now) = []"

definition readings :: "ledger_action list \<Rightarrow> timestamp list" where
  "readings acts = concat (map reading acts)"


section \<open>The address-status vocabulary\<close>

text \<open>
  The four address states, the values the vendors use for them (Shopify:
  \<open>NO_ISSUES | WARNING | ERROR | null\<close>; ShipStation: the four texts of the
  \<open>addressVerified\<close> field), and the states that are an address issue.
\<close>

datatype address_status = NotValidated | Verified | Warning | Failed

fun shopify_value :: "address_status \<Rightarrow> string option" where
  "shopify_value NotValidated = None"
| "shopify_value Verified = Some ''NO_ISSUES''"
| "shopify_value Warning = Some ''WARNING''"
| "shopify_value Failed = Some ''ERROR''"

fun shipstation_value :: "address_status \<Rightarrow> string option" where
  "shipstation_value NotValidated = Some ''Address not yet validated''"
| "shipstation_value Verified = Some ''Address validated successfully''"
| "shipstation_value Warning = Some ''Address validation warning''"
| "shipstation_value Failed = Some ''Address validation failed''"

definition has_address_issue :: "address_status \<Rightarrow> bool" where
  "has_address_issue st = (st = Warning \<or> st = Failed)"

text \<open>Two values of a validation field that differ at most in the case of letters.\<close>

definition same_ignoring_case :: "string option \<Rightarrow> string option \<Rightarrow> bool" where
  "same_ignoring_case a b = (map_option toLowerCase a = map_option toLowerCase b)"

section \<open>Predicates used in the proofs\<close>

text \<open>The \<open>UNIQUE(shopify_order_gid)\<close> constraint, as a property of the table.\<close>

definition ledger_ok :: "database \<Rightarrow> bool" where
  "ledger_ok db = distinct (map shopify_order_gid (processed db))"

text \<open>An order that a pass has to resolve: an address issue with a business number.\<close>

definition needs_entry :: "shopify_order \<Rightarrow> bool" where
  "needs_entry ord = (isShopifyAddressIssue ord \<and> orderNumberFromShopifyName (o_name ord) \<noteq> [])"

section \<open>Example data\<close>

definition example_cfg :: config where
  "example_cfg = \<lparr>ADDRESS_ISSUE_TAG_NAME = ''ADDRESS ISSUE'', LOOKBACK_MINUTES_ON_FIRST_RUN = 1440\<rparr>"

definition shopify_order_with :: "string \<Rightarrow> string \<Rightarrow> string option \<Rightarrow> shopify_order" where
  "shopify_order_with gid nm v =
     \<lparr>o_id = gid, o_name = nm, updatedAt = ''2024-10-01T00:00:00Z'',
      shippingAddress = Some \<lparr>validationResultSummary = v\<rparr>\<rparr>"

definition shipstation_order_with :: "int \<Rightarrow> string option \<Rightarrow> shipstation_order" where
  "shipstation_order_with oid v =
     \<lparr>orderId = oid, orderNumber = Some ''1001'', orderKey = None,
      shipTo = Some \<lparr>addressVerified = v\<rparr>\<rparr>"

definition order_1001 :: shopify_order where
  "order_1001 = shopify_order_with ''gid-1001'' ''#1001'' (Some ''ERROR'')"

definition order_hash :: shopify_order where
  "order_hash = shopify_order_with ''gid-7'' '' # '' (Some ''warning'')"

definition row_1001 :: processed_row where
  "row_1001 =
     \<lparr>shopify_order_gid = ''gid-1001'', shopify_order_name = Some ''#1001'',
      shipstation_order_id = None, status = ''not_found'',
      note_text = Some ''Not found in ShipStation yet'', created_at = 10, updated_at = 10\<rparr>"

definition db_seen :: database where
  "db_seen =
     \<lparr>state_tbl = [\<lparr>st_key = ''last_shopify_poll_iso'', st_value = 1000, st_updated_at = 1000\<rparr>],
      processed = [row_1001]\<rparr>"

definition srv_row_501 :: srv_row where
  "srv_row_501 =
     \<lparr>srv_shipstation_order_id = 501, srv_order_number = Some ''1001'', srv_status = ''error'',
      srv_note = Some ''Request failed with status code 500'', srv_created_at = 10,
      srv_updated_at = 10\<rparr>"

definition tagged_args :: mark_args where
  "tagged_args =
     \<lparr>shopifyOrderGid = ''gid-1001'', shopifyOrderName = ''#1001'',
      shipstationOrderId = Some 501, m_status = ''tagged'',
      m_note = Some ''Tagged ADDRESS ISSUE (Shopify validation=ERROR)''\<rparr>"

text \<open>ShipStation unreachable, and ShipStation holding order 1001.\<close>

definition ss_down :: order_world where
  "ss_down =
     \<lparr>get_orders = (\<lambda>num. Rejected (Error ''timeout of 15000ms exceeded'')),
      add_tag = (\<lambda>oid tid. Resolved ()),
      db_now = 6000\<rparr>"

definition ss_has_1001 :: order_world where
  "ss_has_1001 =
     \<lparr>get_orders = (\<lambda>num. if num = ''1001''
         then Resolved [shipstation_order_with 501 None] else Resolved []),
      add_tag = (\<lambda>oid tid. Resolved ()),
      db_now = 7000\<rparr>"

definition last_page :: "shopify_order list \<Rightarrow> graphql_body" where
  "last_page os =
     \<lparr>gql_errors = None,
      gql_orders = Some \<lparr>edges = os, pageInfo = Some \<lparr>hasNextPage = False, endCursor = None\<rparr>\<rparr>\<rparr>"

definition more_page :: "shopify_order list \<Rightarrow> string \<Rightarrow> graphql_body" where
  "more_page os cur =
     \<lparr>gql_errors = None,
      gql_orders = Some \<lparr>edges = os, pageInfo = Some \<lparr>hasNextPage = True, endCursor = Some cur\<rparr>\<rparr>\<rparr>"

text \<open>A pass that fetches two orders in one page while ShipStation is unreachable.\<close>

definition world_ok :: pass_world where
  "world_ok =
     \<lparr>clock_poll_started = 5000, clock_first_run = 5001,
      shopify_post = (\<lambda>since page after. Resolved (last_page [order_1001, order_hash])),
      clock_after_fetch = 5200,
      per_order = (\<lambda>k. ss_down),
      clock_setState = 5300\<rparr>"

text \<open>The same orders fetched later, with ShipStation back and holding order 1001.\<close>

definition world_later :: pass_world where
  "world_later =
     \<lparr>clock_poll_started = 8000, clock_first_run = 8001,
      shopify_post = (\<lambda>since page after. Resolved (last_page [order_1001, order_hash])),
      clock_after_fetch = 8200,
      per_order = (\<lambda>k. ss_has_1001),
      clock_setState = 8300\<rparr>"

text \<open>A pass whose second page request is rejected.\<close>

definition world_fetch_fails :: pass_world where
  "world_fetch_fails =
     \<lparr>clock_poll_started = 5000, clock_first_run = 5001,
      shopify_post = (\<lambda>since page after.
         if page = 1 then Resolved (more_page [order_1001] ''cursor-1'')
         else Rejected (Error ''Request failed with status code 503'')),
      clock_after_fetch = 5200,
      per_order = (\<lambda>k. ss_has_1001),
      clock_setState = 5300\<rparr>"

text \<open>What the first of these passes returns on a new database.\<close>

definition pass_ok_result :: poll_run where
  "pass_ok_result =
     \<lparr>run_db =
        \<lparr>state_tbl =
           [\<lparr>st_key = ''last_shopify_poll_iso'', st_value = 5200, st_updated_at = 5300\<rparr>],
         processed =
           [\<lparr>shopify_order_gid = ''gid-1001'', shopify_order_name = Some ''#1001'',
             shipstation_order_id = None, status = ''not_found'',
             note_text = Some ''Not found in ShipStation yet'',
             created_at = 6000, updated_at = 6000\<rparr>]\<rparr>,
      inspected = 2, addressIssues = 2, newlyTagged = 0, notInShipStation = 1,
      skippedAlready = 0, errors = 0, requests = [GetOrders ''1001'']\<rparr>"

text \<open>What the later pass returns on \<open>db_seen\<close>.\<close>

definition pass_later_result :: poll_run where
  "pass_later_result =
     \<lparr>run_db =
        \<lparr>state_tbl =
           [\<lparr>st_key = ''last_shopify_poll_iso'', st_value = 8200, st_updated_at = 8300\<rparr>],
         processed = [row_1001]\<rparr>,
      inspected = 2, addressIssues = 2, newlyTagged = 0, notInShipStation = 0,
      skippedAlready = 1, errors = 0, requests = []\<rparr>"

text \<open>The ShipStation scanner meeting an order it has recorded as an error.\<close>

definition scan_seen :: scan_run where
  "scan_seen =
     \<lparr>scan_rows = [srv_row_501], foundFailed = 0, srv_newlyTagged = 0, srv_skippedAlready = 0,
      srv_requests = []\<rparr>"

definition failed_501 :: shipstation_order where
  "failed_501 = shipstation_order_with 501 (Some ''Address validation failed'')"

definition history_3 :: "ledger_action list" where
  "history_3 = [Pass example_cfg world_ok 7, Mark tagged_args 7000, Pass example_cfg world_later 7]"

text \<open>
  A database with a watermark and an empty ledger, and ShipStation without the order.
\<close>

definition db_marked :: database where
  "db_marked =
     \<lparr>state_tbl = [\<lparr>st_key = ''last_shopify_poll_iso'', st_value = 1000, st_updated_at = 1000\<rparr>],
      processed = []\<rparr>"

definition ss_empty :: order_world where
  "ss_empty =
     \<lparr>get_orders = (\<lambda>num. Resolved []), add_tag = (\<lambda>oid tid. Resolved ()), db_now = 5250\<rparr>"

text \<open>
  Two passes that overlap. The slow one begins at 5000 and has fetched at 5200; the fast one
  is started by the interval at 5300 and has fetched at 5400. The slow pass runs its loop and
  is at the pause that ends its last iteration; the fast pass runs its loop and stores its
  watermark; then the slow pass stores its own.
\<close>

definition world_slow :: pass_world where
  "world_slow =
     \<lparr>clock_poll_started = 5000, clock_first_run = 5001,
      shopify_post = (\<lambda>since page after. Resolved (last_page [order_1001])),
      clock_after_fetch = 5200,
      per_order = (\<lambda>k. ss_empty),
      clock_setState = 5500\<rparr>"

definition world_fast :: pass_world where
  "world_fast =
     \<lparr>clock_poll_started = 5300, clock_first_run = 5301,
      shopify_post = (\<lambda>since page after. Resolved (last_page [order_1001])),
      clock_after_fetch = 5400,
      per_order = (\<lambda>k. ss_empty),
      clock_setState = 5450\<rparr>"

definition slow_locals :: pass_locals where
  "slow_locals = \<lparr>pl_orders = [order_1001], pl_newSince = 5200\<rparr>"

definition fast_locals :: pass_locals where
  "fast_locals = \<lparr>pl_orders = [order_1001], pl_newSince = 5400\<rparr>"

definition after_slow_loop :: database where
  "after_slow_loop = run_db (pass_loop example_cfg world_slow 7 slow_locals db_marked)"

definition after_fast_store :: database where
  "after_fast_store =
     pass_store world_fast fast_locals
       (run_db (pass_loop example_cfg world_fast 7 fast_locals after_slow_loop))"

definition after_slow_store :: database where
  "after_slow_store = pass_store world_slow slow_locals after_fast_store"

text \<open>
  A warning between a no-break space and a space and a tab; an order named \<open>#\<close> and a
  no-break space.
\<close>

definition padded_warning :: string where
  "padded_warning = CHR 0xA0 # ''waRNing '' @ [CHR 0x09]"

definition order_nbsp :: shopify_order where
  "order_nbsp = shopify_order_with ''gid-8'' [CHR ''#'', CHR 0xA0] (Some ''ERROR'')"

section \<open>Letters and white space\<close>

lemmas letter_defs = lower_letters_def upper_letters_def ascii_lower_def ascii_upper_def
  latin1_lower_def latin1_upper_def

lemmas case_eval = toUpperCase_def upperUnits_def toUpperChar_def toLowerCase_def toLowerChar_def
  units_def letter_defs trim_def isWhiteSpace_def

lemmas char_eval = upperUnits_def toUpperChar_def toLowerChar_def isWhiteSpace_def letter_defs

lemmas members = set_append Un_iff list.set insert_iff empty_iff

lemma toLowerChar_other: "c \<notin> set upper_letters \<Longrightarrow> toLowerChar c = c"
proof -
  assume "c \<notin> set upper_letters"
  then have "map_of (zip upper_letters lower_letters) c = None"
    by (simp add: map_of_eq_None_iff letter_defs)
  then show ?thesis by (simp add: toLowerChar_def)
qed

lemma toUpperChar_other: "c \<notin> set lower_letters \<Longrightarrow> toUpperChar c = c"
proof -
  assume "c \<notin> set lower_letters"
  then have "map_of (zip lower_letters upper_letters) c = None"
    by (simp add: map_of_eq_None_iff letter_defs)
  then show ?thesis by (simp add: toUpperChar_def)
qed

text \<open>What holds of each capital, of each small letter, and of each small ASCII letter.\<close>

lemma upper_letter_facts:
  assumes "c \<in> set upper_letters"
  shows "toUpperChar (toLowerChar c) = c \<and> upperUnits c = [of_char c]
     \<and> upperUnits (toLowerChar c) = [of_char c] \<and> c \<notin> set lower_letters
     \<and> isWhiteSpace (toLowerChar c) = isWhiteSpace c"
  using assms
  apply (simp only: letter_defs members)
  apply (elim disjE)
  apply (simp_all add: char_eval)
  done

lemma lower_letter_facts:
  assumes "c \<in> set lower_letters"
  shows "toLowerChar (toUpperChar c) = c \<and> c \<notin> set upper_letters"
  using assms
  apply (simp only: letter_defs members)
  apply (elim disjE)
  apply (simp_all add: char_eval)
  done

lemma ascii_lower_facts:
  assumes "l \<in> set ascii_lower"
  shows "l \<in> set lower_letters \<and> upperUnits l = [of_char (toUpperChar l)]
     \<and> (of_char (toUpperChar l) = (0x53::nat) \<longrightarrow> l = CHR ''s'')"
  using assms
  apply (simp only: ascii_lower_def members)
  apply (elim disjE)
  apply (simp_all add: char_eval)
  done

lemma upperUnits_not_Nil: "upperUnits c \<noteq> []"
  by (simp add: upperUnits_def)

lemma upperUnits_toLowerChar: "upperUnits (toLowerChar c) = upperUnits c"
proof (cases "c \<in> set upper_letters")
  case True
  then show ?thesis using upper_letter_facts [of c] by simp
next
  case False
  then show ?thesis by (simp add: toLowerChar_other)
qed

lemma isWhiteSpace_toLowerChar: "isWhiteSpace (toLowerChar c) = isWhiteSpace c"
proof (cases "c \<in> set upper_letters")
  case True
  then show ?thesis using upper_letter_facts [of c] by simp
next
  case False
  then show ?thesis by (simp add: toLowerChar_other)
qed

lemma toUpperCase_toLowerCase: "toUpperCase (toLowerCase s) = toUpperCase s"
  by (simp add: toUpperCase_def toLowerCase_def upperUnits_toLowerChar o_def)

lemma dropWhile_toLowerCase:
  "dropWhile isWhiteSpace (toLowerCase s) = toLowerCase (dropWhile isWhiteSpace s)"
  by (induction s) (simp_all add: toLowerCase_def isWhiteSpace_toLowerChar)

lemma trim_toLowerCase: "trim (toLowerCase s) = toLowerCase (trim s)"
proof -
  have r: "rev (toLowerCase t) = toLowerCase (rev t)" for t
    by (simp add: toLowerCase_def rev_map)
  have "trim (toLowerCase s) =
      rev (dropWhile isWhiteSpace (rev (toLowerCase (dropWhile isWhiteSpace s))))"
    by (simp add: trim_def dropWhile_toLowerCase)
  also have "\<dots> = rev (toLowerCase (dropWhile isWhiteSpace (rev (dropWhile isWhiteSpace s))))"
    by (simp only: r dropWhile_toLowerCase)
  also have "\<dots> = toLowerCase (trim s)"
    by (simp only: r trim_def)
  finally show ?thesis .
qed

lemma upper_trim_cong:
  assumes "toLowerCase s = toLowerCase t"
  shows "toUpperCase (trim s) = toUpperCase (trim t)"
proof -
  have "toUpperCase (trim s) = toUpperCase (trim (toLowerCase s))"
    by (simp add: trim_toLowerCase toUpperCase_toLowerCase)
  also have "\<dots> = toUpperCase (trim (toLowerCase t))"
    by (simp add: assms)
  also have "\<dots> = toUpperCase (trim t)"
    by (simp add: trim_toLowerCase toUpperCase_toLowerCase)
  finally show ?thesis .
qed

text \<open>
  A code unit whose upper-case form begins with the capital of a small ASCII letter
  other than \<open>s\<close> has that one capital as its upper-case form, and the letter as its
  lower-case form.
\<close>

lemma upperUnits_head:
  assumes l: "l \<in> set ascii_lower" and s: "l \<noteq> CHR ''s''"
    and u: "upperUnits c = of_char (toUpperChar l) # rest"
  shows "rest = [] \<and> toLowerChar c = l"
proof -
  note lf = ascii_lower_facts [OF l]
  have small: "of_char (toUpperChar l) < (256::nat)" by simp
  have c1: "c \<noteq> CHR 0xDF"
  proof
    assume "c = CHR 0xDF"
    with u have "of_char (toUpperChar l) = (0x53::nat)" by (simp add: upperUnits_def)
    with lf s show False by simp
  qed
  have c2: "c \<noteq> CHR 0xB5"
  proof
    assume "c = CHR 0xB5"
    with u have "of_char (toUpperChar l) = (0x39C::nat)" by (simp add: upperUnits_def)
    with small show False by arith
  qed
  have c3: "c \<noteq> CHR 0xFF"
  proof
    assume "c = CHR 0xFF"
    with u have "of_char (toUpperChar l) = (0x178::nat)" by (simp add: upperUnits_def)
    with small show False by arith
  qed
  from u c1 c2 c3 have rest: "rest = []" and eq: "toUpperChar c = toUpperChar l"
    by (simp_all add: upperUnits_def)
  have ll: "toLowerChar (toUpperChar l) = l" and lu: "l \<notin> set upper_letters"
    using lower_letter_facts [of l] lf by simp_all
  have "toLowerChar c = l"
  proof (cases "c \<in> set lower_letters")
    case True
    then have "toLowerChar (toUpperChar c) = c" and "c \<notin> set upper_letters"
      using lower_letter_facts [of c] by simp_all
    with eq ll have "c = l" by simp
    with lu show ?thesis by (simp add: toLowerChar_other)
  next
    case False
    then have "c = toUpperChar l" using eq by (simp add: toUpperChar_other)
    with ll show ?thesis by simp
  qed
  with rest show ?thesis by simp
qed

lemma upperUnits_of_lower:
  assumes l: "l \<in> set ascii_lower" and "toLowerChar c = l"
  shows "upperUnits c = [of_char (toUpperChar l)]"
proof (cases "c \<in> set upper_letters")
  case True
  then show ?thesis using upper_letter_facts [of c] assms(2) by auto
next
  case False
  then have "c = l" using assms(2) by (simp add: toLowerChar_other)
  then show ?thesis using ascii_lower_facts [OF l] by simp
qed

text \<open>
  So the upper-case form of a text is a word of ASCII capitals without \<open>S\<close> exactly when
  its lower-case form is the word in small letters.
\<close>

lemma toUpperCase_is_word:
  assumes "set t \<subseteq> set ascii_lower - {CHR ''s''}"
  shows "(toUpperCase x = units (map toUpperChar t)) = (toLowerCase x = t)"
  using assms
proof (induction x arbitrary: t)
  case Nil
  then show ?case by (auto simp: toUpperCase_def toLowerCase_def units_def)
next
  case (Cons c x)
  show ?case
  proof (cases t)
    case Nil
    then show ?thesis
      by (simp add: toUpperCase_def toLowerCase_def units_def upperUnits_not_Nil)
  next
    case (Cons l t')
    with Cons.prems have l: "l \<in> set ascii_lower" "l \<noteq> CHR ''s''"
      and t': "set t' \<subseteq> set ascii_lower - {CHR ''s''}"
      by auto
    have ih: "(toUpperCase x = units (map toUpperChar t')) = (toLowerCase x = t')"
      by (rule Cons.IH) (rule t')
    show ?thesis
    proof
      assume a: "toUpperCase (c # x) = units (map toUpperChar t)"
      obtain h rest where hr: "upperUnits c = h # rest"
        using upperUnits_not_Nil [of c] by (cases "upperUnits c") auto
      with a Cons have h: "h = of_char (toUpperChar l)"
        by (simp add: toUpperCase_def units_def)
      from upperUnits_head [OF l hr [unfolded h]]
      have r: "rest = []" and lc: "toLowerChar c = l" by simp_all
      from a Cons hr h r have "toUpperCase x = units (map toUpperChar t')"
        by (simp add: toUpperCase_def units_def)
      with ih lc Cons show "toLowerCase (c # x) = t"
        by (simp add: toLowerCase_def)
    next
      assume a: "toLowerCase (c # x) = t"
      with Cons have lc: "toLowerChar c = l" and x: "toLowerCase x = t'"
        by (simp_all add: toLowerCase_def)
      from upperUnits_of_lower [OF l(1) lc] ih x Cons
      show "toUpperCase (c # x) = units (map toUpperChar t)"
        by (simp add: toUpperCase_def units_def)
    qed
  qed
qed

lemma upper_is_WARNING: "(toUpperCase x = units ''WARNING'') = (toLowerCase x = ''warning'')"
proof -
  have "set ''warning'' \<subseteq> set ascii_lower - {CHR ''s''}"
    by (simp add: ascii_lower_def)
  from toUpperCase_is_word [OF this, of x] show ?thesis
    by (simp add: toUpperChar_def letter_defs)
qed

lemma upper_is_ERROR: "(toUpperCase x = units ''ERROR'') = (toLowerCase x = ''error'')"
proof -
  have "set ''error'' \<subseteq> set ascii_lower - {CHR ''s''}"
    by (simp add: ascii_lower_def)
  from toUpperCase_is_word [OF this, of x] show ?thesis
    by (simp add: toUpperChar_def letter_defs)
qed

section \<open>The classifiers on the vendors' vocabularies\<close>

lemma isShopifyAddressIssue_lower:
  "isShopifyAddressIssue ord =
     (toLowerCase (normalize (summary_of ord)) = ''warning''
      \<or> toLowerCase (normalize (summary_of ord)) = ''error'')"
  by (simp add: isShopifyAddressIssue_def Let_def upper_is_WARNING upper_is_ERROR)

lemma shopify_issue_iff:
  assumes "same_ignoring_case (summary_of ord) (shopify_value st)"
  shows "isShopifyAddressIssue ord = has_address_issue st"
proof (cases st)
  case NotValidated
  with assms have "summary_of ord = None" by (simp add: same_ignoring_case_def)
  then show ?thesis using NotValidated
    by (simp add: isShopifyAddressIssue_lower normalize_def has_address_issue_def
        trim_def toLowerCase_def)
next
  case Verified
  with assms obtain s where s: "summary_of ord = Some s" "toLowerCase s = toLowerCase ''NO_ISSUES''"
    by (auto simp: same_ignoring_case_def)
  have "toLowerCase (trim s) = trim (toLowerCase ''NO_ISSUES'')"
    by (simp add: trim_toLowerCase [symmetric] s(2))
  also have "\<dots> = ''no_issues''" by (simp add: case_eval)
  finally show ?thesis using Verified s(1)
    by (simp add: isShopifyAddressIssue_lower normalize_def has_address_issue_def)
next
  case Warning
  with assms obtain s where s: "summary_of ord = Some s" "toLowerCase s = toLowerCase ''WARNING''"
    by (auto simp: same_ignoring_case_def)
  have "toLowerCase (trim s) = trim (toLowerCase ''WARNING'')"
    by (simp add: trim_toLowerCase [symmetric] s(2))
  also have "\<dots> = ''warning''" by (simp add: case_eval)
  finally show ?thesis using Warning s(1)
    by (simp add: isShopifyAddressIssue_lower normalize_def has_address_issue_def)
next
  case Failed
  with assms obtain s where s: "summary_of ord = Some s" "toLowerCase s = toLowerCase ''ERROR''"
    by (auto simp: same_ignoring_case_def)
  have "toLowerCase (trim s) = trim (toLowerCase ''ERROR'')"
    by (simp add: trim_toLowerCase [symmetric] s(2))
  also have "\<dots> = ''error''" by (simp add: case_eval)
  finally show ?thesis using Failed s(1)
    by (simp add: isShopifyAddressIssue_lower normalize_def has_address_issue_def)
qed

lemma shipstation_failed_iff:
  assumes "same_ignoring_case (addressVerified_of ord) (shipstation_value st)"
  shows "isAddressVerificationFailed ord = (st = Failed)"
proof -
  from assms obtain s where s: "addressVerified_of ord = Some s"
      "Some (toLowerCase s) = map_option toLowerCase (shipstation_value st)"
    by (cases st) (auto simp: same_ignoring_case_def)
  show ?thesis
    using s by (cases st) (simp_all add: isAddressVerificationFailed_def ADDRESS_FAILED_VALUE_def
      toLowerCase_def toLowerChar_def letter_defs)
qed

lemma null_not_failed: "addressVerified_of ord = None \<Longrightarrow> \<not> isAddressVerificationFailed ord"
  by (simp add: isAddressVerificationFailed_def ADDRESS_FAILED_VALUE_def
      toLowerCase_def toLowerChar_def letter_defs)

section \<open>The store\<close>

lemma wasProcessed_iff: "wasProcessed db gid = (gid \<in> shopify_order_gid ` set (processed db))"
  by (auto simp: wasProcessed_def find_None_iff)

lemma map_if_key_eq_update:
  assumes "distinct (map f xs)" and "i < length xs" and "f (xs ! i) = k"
  shows "map (\<lambda>r. if f r = k then g r else r) xs = xs[i := g (xs ! i)]"
proof (rule nth_equalityI)
  show "length (map (\<lambda>r. if f r = k then g r else r) xs) = length (xs[i := g (xs ! i)])"
    by simp
next
  fix j assume "j < length (map (\<lambda>r. if f r = k then g r else r) xs)"
  then have j: "j < length xs" by simp
  show "map (\<lambda>r. if f r = k then g r else r) xs ! j = xs[i := g (xs ! i)] ! j"
  proof (cases "j = i")
    case True
    with assms show ?thesis by simp
  next
    case False
    have "map f xs ! j \<noteq> map f xs ! i"
      using assms(1,2) j False by (simp add: nth_eq_iff_index_eq del: nth_map)
    with assms(2,3) j have "f (xs ! j) \<noteq> k" by simp
    with j False show ?thesis by simp
  qed
qed

lemma gids_markProcessed:
  "map shopify_order_gid (processed (markProcessed a now db)) =
     (if wasProcessed db (shopifyOrderGid a) then map shopify_order_gid (processed db)
      else map shopify_order_gid (processed db) @ [shopifyOrderGid a])"
  by (simp add: markProcessed_def o_def cong: map_cong)


lemma markProcessed_existing:
  assumes "distinct (map shopify_order_gid (processed db))"
    and "i < length (processed db)"
    and "shopify_order_gid (processed db ! i) = shopifyOrderGid a"
  shows "markProcessed a now db =
     db\<lparr>processed := (processed db)[i := (processed db ! i)
        \<lparr>shopify_order_name := Some (shopifyOrderName a),
         shipstation_order_id := id_or_null (shipstationOrderId a),
         status := m_status a,
         note_text := note_or_null (m_note a),
         updated_at := now\<rparr>]\<rparr>"
proof -
  from assms(2) have "processed db ! i \<in> set (processed db)" by simp
  with assms(3) have "\<exists>x. x \<in> set (processed db) \<and> shopify_order_gid x = shopifyOrderGid a"
    by blast
  then have "wasProcessed db (shopifyOrderGid a)"
    by (simp add: wasProcessed_def find_None_iff)
  then show ?thesis
    by (simp add: markProcessed_def map_if_key_eq_update [OF assms])
qed

lemma markProcessed_srv_existing:
  assumes "distinct (map srv_shipstation_order_id rows)"
    and "i < length rows"
    and "srv_shipstation_order_id (rows ! i) = oid"
  shows "markProcessed_srv oid num st nt now rows =
     rows[i := (rows ! i)\<lparr>srv_status := st, srv_note := Some nt, srv_updated_at := now\<rparr>]"
proof -
  from assms(2) have "rows ! i \<in> set rows" by simp
  with assms(3) have "\<exists>x. x \<in> set rows \<and> srv_shipstation_order_id x = oid" by blast
  then have "wasProcessed_srv rows oid"
    by (simp add: wasProcessed_srv_def find_None_iff)
  then show ?thesis
    by (simp add: markProcessed_srv_def map_if_key_eq_update [OF assms])
qed


lemma getState_setState: "getState (setState k v now db) k = Some v"
proof -
  have upd: "find (\<lambda>r. st_key r = k)
        (map (\<lambda>r. if st_key r = k then r\<lparr>st_value := v, st_updated_at := now\<rparr> else r) rows)
      = map_option (\<lambda>r. r\<lparr>st_value := v, st_updated_at := now\<rparr>) (find (\<lambda>r. st_key r = k) rows)"
    for rows :: "state_row list"
    by (induction rows) simp_all
  have app: "k \<notin> st_key ` set rows \<Longrightarrow>
      find (\<lambda>r. st_key r = k) (rows @ [x]) = (if st_key x = k then Some x else None)"
    for rows :: "state_row list" and x
    by (induction rows) auto
  show ?thesis
  proof (cases "k \<in> st_key ` set (state_tbl db)")
    case True
    then obtain y where "find (\<lambda>r. st_key r = k) (state_tbl db) = Some y"
      by (cases "find (\<lambda>r. st_key r = k) (state_tbl db)") (auto simp: find_None_iff)
    with True show ?thesis by (simp add: getState_def setState_def upd)
  next
    case False
    then show ?thesis by (simp add: getState_def setState_def app)
  qed
qed

lemma processed_setState: "processed (setState k v now db) = processed db"
  by (simp add: setState_def)

section \<open>The loop body and the loop\<close>

lemma wasProcessed_gids: "wasProcessed d g = (g \<in> set (map shopify_order_gid (processed d)))"
  by (simp add: wasProcessed_iff)

lemma wasProcessed_markProcessed:
  "wasProcessed (markProcessed a now db) gid = (wasProcessed db gid \<or> gid = shopifyOrderGid a)"
  unfolding wasProcessed_gids gids_markProcessed by auto

lemma processed_markProcessed_new:
  "\<not> wasProcessed db (shopifyOrderGid a) \<Longrightarrow>
   processed (markProcessed a now db) = processed db @
      [\<lparr>shopify_order_gid = shopifyOrderGid a,
        shopify_order_name = Some (shopifyOrderName a),
        shipstation_order_id = id_or_null (shipstationOrderId a),
        status = m_status a,
        note_text = note_or_null (m_note a),
        created_at = now,
        updated_at = now\<rparr>]"
  by (simp add: markProcessed_def)

lemma state_tbl_markProcessed: "state_tbl (markProcessed a now db) = state_tbl db"
  by (simp add: markProcessed_def)

text \<open>The four ways through the loop body.\<close>

lemma process_order_no_issue:
  "\<not> isShopifyAddressIssue ord \<Longrightarrow>
   process_order cfg w tagId ord r = r\<lparr>inspected := inspected r + 1\<rparr>"
  by (simp add: process_order_def)

lemma process_order_already:
  "isShopifyAddressIssue ord \<Longrightarrow> wasProcessed (run_db r) (o_id ord) \<Longrightarrow>
   process_order cfg w tagId ord r =
     r\<lparr>inspected := inspected r + 1, addressIssues := addressIssues r + 1,
       skippedAlready := skippedAlready r + 1\<rparr>"
  by (simp add: process_order_def)

lemma process_order_no_number:
  "isShopifyAddressIssue ord \<Longrightarrow> \<not> wasProcessed (run_db r) (o_id ord) \<Longrightarrow>
   orderNumberFromShopifyName (o_name ord) = [] \<Longrightarrow>
   process_order cfg w tagId ord r =
     r\<lparr>inspected := inspected r + 1, addressIssues := addressIssues r + 1\<rparr>"
  by (simp add: process_order_def)

lemma process_order_new:
  assumes "isShopifyAddressIssue ord" and "\<not> wasProcessed (run_db r) (o_id ord)"
    and "orderNumberFromShopifyName (o_name ord) \<noteq> []"
  shows "\<exists>a. shopifyOrderGid a = o_id ord \<and>
     run_db (process_order cfg w tagId ord r) = markProcessed a (db_now w) (run_db r)"
proof -
  have mk: "\<exists>a. shopifyOrderGid a = o_id ord \<and> markProcessed b now db = markProcessed a now db"
    if "shopifyOrderGid b = o_id ord" for b now db
    using that by blast
  show ?thesis
    using assms
    by (simp add: process_order_def Let_def mk split: option.splits http.splits)
qed

lemma run_db_process_order_cases:
  "run_db (process_order cfg w tagId ord r) = run_db r \<or>
   (\<not> wasProcessed (run_db r) (o_id ord) \<and>
    (\<exists>a. shopifyOrderGid a = o_id ord \<and>
       run_db (process_order cfg w tagId ord r) = markProcessed a (db_now w) (run_db r)))"
proof (cases "isShopifyAddressIssue ord")
  case False
  then show ?thesis by (simp add: process_order_no_issue)
next
  case issue: True
  show ?thesis
  proof (cases "wasProcessed (run_db r) (o_id ord)")
    case True
    with issue show ?thesis by (simp add: process_order_already)
  next
    case new: False
    show ?thesis
    proof (cases "orderNumberFromShopifyName (o_name ord) = []")
      case True
      with issue new show ?thesis by (simp add: process_order_no_number)
    next
      case False
      with issue new show ?thesis using process_order_new [of ord r cfg w tagId] by simp
    qed
  qed
qed



lemma wasProcessed_process_order:
  "wasProcessed (run_db r) gid \<Longrightarrow> wasProcessed (run_db (process_order cfg w tagId ord r)) gid"
  using run_db_process_order_cases [of cfg w tagId ord r]
  by (auto simp: wasProcessed_markProcessed)

lemma wasProcessed_poll_loop:
  "wasProcessed (run_db r) gid \<Longrightarrow> wasProcessed (run_db (poll_loop cfg ws tagId k orders r)) gid"
  by (induction orders arbitrary: k r) (simp_all add: wasProcessed_process_order)

lemma process_order_enters:
  "needs_entry ord \<Longrightarrow> wasProcessed (run_db (process_order cfg w tagId ord r)) (o_id ord)"
proof (cases "wasProcessed (run_db r) (o_id ord)")
  case True
  then show ?thesis by (rule wasProcessed_process_order)
next
  case False
  assume "needs_entry ord"
  with False obtain a where "shopifyOrderGid a = o_id ord"
      "run_db (process_order cfg w tagId ord r) = markProcessed a (db_now w) (run_db r)"
    using process_order_new [of ord r cfg w tagId] by (auto simp: needs_entry_def)
  then show ?thesis by (simp add: wasProcessed_markProcessed)
qed

lemma poll_loop_enters:
  "ord \<in> set orders \<Longrightarrow> needs_entry ord \<Longrightarrow>
   wasProcessed (run_db (poll_loop cfg ws tagId k orders r)) (o_id ord)"
proof (induction orders arbitrary: k r)
  case Nil
  then show ?case by simp
next
  case (Cons x xs)
  show ?case
  proof (cases "ord = x")
    case True
    with Cons.prems show ?thesis
      by (simp add: wasProcessed_poll_loop process_order_enters)
  next
    case False
    with Cons show ?thesis by simp
  qed
qed

lemma process_order_settled:
  assumes "needs_entry ord \<longrightarrow> wasProcessed (run_db r) (o_id ord)"
  shows "run_db (process_order cfg w tagId ord r) = run_db r \<and>
         requests (process_order cfg w tagId ord r) = requests r"
proof (cases "isShopifyAddressIssue ord")
  case False
  then show ?thesis by (simp add: process_order_no_issue)
next
  case True
  show ?thesis
  proof (cases "wasProcessed (run_db r) (o_id ord)")
    case True
    with \<open>isShopifyAddressIssue ord\<close> show ?thesis by (simp add: process_order_already)
  next
    case False
    with assms True have "orderNumberFromShopifyName (o_name ord) = []"
      by (simp add: needs_entry_def)
    with True False show ?thesis by (simp add: process_order_no_number)
  qed
qed

lemma poll_loop_settled:
  "(\<And>ord. ord \<in> set orders \<Longrightarrow> needs_entry ord \<Longrightarrow> wasProcessed (run_db r) (o_id ord)) \<Longrightarrow>
   run_db (poll_loop cfg ws tagId k orders r) = run_db r \<and>
   requests (poll_loop cfg ws tagId k orders r) = requests r"
proof (induction orders arbitrary: k r)
  case Nil
  then show ?case by simp
next
  case (Cons x xs)
  have step: "run_db (process_order cfg (ws k) tagId x r) = run_db r \<and>
         requests (process_order cfg (ws k) tagId x r) = requests r"
    by (rule process_order_settled) (simp add: Cons.prems)
  have "run_db (poll_loop cfg ws tagId (Suc k) xs (process_order cfg (ws k) tagId x r)) =
          run_db (process_order cfg (ws k) tagId x r) \<and>
        requests (poll_loop cfg ws tagId (Suc k) xs (process_order cfg (ws k) tagId x r)) =
          requests (process_order cfg (ws k) tagId x r)"
    by (rule Cons.IH) (simp add: step Cons.prems)
  with step show ?case by simp
qed

section \<open>Passes and histories\<close>



lemma pollOnce_fetched:
  "fetchShopifyOrdersUpdatedSince w (since_of cfg w db) = Some (Inr orders) \<Longrightarrow>
   pollOnce cfg w tagId db =
     Some (Inr ((poll_loop cfg (per_order w) tagId 0 orders (start_run db))
       \<lparr>run_db := setState ''last_shopify_poll_iso'' (clock_after_fetch w) (clock_setState w)
          (run_db (poll_loop cfg (per_order w) tagId 0 orders (start_run db)))\<rparr>))"
  by (simp add: pollOnce_def Let_def)

lemma pollOnce_rejected:
  "fetchShopifyOrdersUpdatedSince w (since_of cfg w db) = Some (Inl e) \<Longrightarrow>
   pollOnce cfg w tagId db = Some (Inl (e, db))"
  by (simp add: pollOnce_def)

lemma pollOnce_endless:
  "fetchShopifyOrdersUpdatedSince w (since_of cfg w db) = None \<Longrightarrow>
   pollOnce cfg w tagId db = None"
  by (simp add: pollOnce_def)

lemma pollOnce_Inr_fetched:
  assumes "pollOnce cfg w tagId db = Some (Inr res)"
  obtains orders where "fetchShopifyOrdersUpdatedSince w (since_of cfg w db) = Some (Inr orders)"
proof (cases "fetchShopifyOrdersUpdatedSince w (since_of cfg w db)")
  case None
  with assms show ?thesis by (simp add: pollOnce_endless)
next
  case (Some x)
  show ?thesis
  proof (cases x)
    case (Inl e)
    with Some assms show ?thesis by (simp add: pollOnce_rejected)
  next
    case (Inr orders)
    with Some that show ?thesis by simp
  qed
qed






text \<open>A pass in its stretches, and the watermark over a history.\<close>

lemma pollOnce_in_stretches:
  "pollOnce cfg w tagId db =
     (case pass_fetch cfg w db of
        None \<Rightarrow> None
      | Some (Inl e) \<Rightarrow> Some (Inl (e, db))
      | Some (Inr l) \<Rightarrow>
          Some (Inr ((pass_loop cfg w tagId l db)
            \<lparr>run_db := pass_store w l (run_db (pass_loop cfg w tagId l db))\<rparr>)))"
  by (simp add: pollOnce_def pass_fetch_def pass_loop_def pass_store_def Let_def
      split: option.splits sum.splits)

lemma getState_pass_store: "getState (pass_store w l db) ''last_shopify_poll_iso'' = Some (pl_newSince l)"
  by (simp add: pass_store_def getState_setState)

lemma getState_markProcessed: "getState (markProcessed a now db) k = getState db k"
  by (simp add: getState_def state_tbl_markProcessed)

lemma db_after_pollOnce_cases:
  "db_after db (pollOnce cfg w tagId db) = db \<or>
   (\<exists>res. pollOnce cfg w tagId db = Some (Inr res) \<and>
      db_after db (pollOnce cfg w tagId db) = run_db res)"
proof (cases "fetchShopifyOrdersUpdatedSince w (since_of cfg w db)")
  case None
  then show ?thesis by (simp add: pollOnce_endless db_after_def)
next
  case (Some x)
  then show ?thesis
    by (cases x) (simp_all add: pollOnce_rejected pollOnce_fetched db_after_def)
qed

lemma getState_after_pass:
  "pollOnce cfg w tagId db = Some (Inr res) \<Longrightarrow>
   getState (run_db res) ''last_shopify_poll_iso'' = Some (clock_after_fetch w)"
proof -
  assume a: "pollOnce cfg w tagId db = Some (Inr res)"
  obtain orders where f: "fetchShopifyOrdersUpdatedSince w (since_of cfg w db) = Some (Inr orders)"
    using a by (rule pollOnce_Inr_fetched)
  show ?thesis
    using a by (auto simp: pollOnce_fetched [OF f] getState_setState)
qed

lemma watermark_sequential:
  "getState db ''last_shopify_poll_iso'' = Some t \<Longrightarrow> sorted (t # readings acts) \<Longrightarrow>
   \<exists>t'. getState (foldl apply_action db acts) ''last_shopify_poll_iso'' = Some t' \<and> t \<le> t'"
proof (induction acts arbitrary: db t)
  case Nil
  then show ?case by simp
next
  case (Cons a acts)
  show ?case
  proof (cases a)
    case (Mark args now)
    have "getState (apply_action db a) ''last_shopify_poll_iso'' = Some t"
      using Cons.prems(1) Mark by (simp add: getState_markProcessed)
    moreover have "sorted (t # readings acts)"
      using Cons.prems(2) Mark by (simp add: readings_def)
    ultimately show ?thesis using Cons.IH by simp
  next
    case (Pass cfg w tagId)
    from Cons.prems(2) Pass have s: "t \<le> clock_after_fetch w"
        "sorted (clock_after_fetch w # readings acts)" "sorted (t # readings acts)"
      by (auto simp: readings_def)
    consider (unchanged) "apply_action db a = db"
      | (stored) res where "pollOnce cfg w tagId db = Some (Inr res)" "apply_action db a = run_db res"
      using db_after_pollOnce_cases [of db cfg w tagId] Pass by auto
    then show ?thesis
    proof cases
      case unchanged
      with Cons.prems(1) s(3) Cons.IH [of db t] show ?thesis by simp
    next
      case stored
      then have "getState (apply_action db a) ''last_shopify_poll_iso'' = Some (clock_after_fetch w)"
        by (simp add: getState_after_pass)
      from Cons.IH [OF this s(2)] obtain t' where
        "getState (foldl apply_action (apply_action db a) acts) ''last_shopify_poll_iso'' = Some t'"
        "clock_after_fetch w \<le> t'"
        by blast
      with s(1) show ?thesis by auto
    qed
  qed
qed

section \<open>The outcomes of the loop body\<close>

lemma process_order_not_found:
  assumes "isShopifyAddressIssue ord" and "\<not> wasProcessed (run_db r) (o_id ord)"
    and "orderNumberFromShopifyName (o_name ord) = num" and "num \<noteq> []"
    and "findShipStationOrder (get_orders w) num = None"
  shows "process_order cfg w tagId ord r =
     r\<lparr>inspected := inspected r + 1, addressIssues := addressIssues r + 1,
       requests := requests r @ [GetOrders num],
       notInShipStation := notInShipStation r + 1,
       run_db := markProcessed
         \<lparr>shopifyOrderGid = o_id ord, shopifyOrderName = o_name ord,
          shipstationOrderId = None, m_status = ''not_found'',
          m_note = Some ''Not found in ShipStation yet''\<rparr> (db_now w) (run_db r)\<rparr>"
  using assms by (simp add: process_order_def)

lemma process_order_tagged:
  assumes "isShopifyAddressIssue ord" and "\<not> wasProcessed (run_db r) (o_id ord)"
    and "orderNumberFromShopifyName (o_name ord) = num" and "num \<noteq> []"
    and "findShipStationOrder (get_orders w) num = Some ssOrder"
    and "add_tag w (orderId ssOrder) tagId = Resolved u"
  shows "process_order cfg w tagId ord r =
     r\<lparr>inspected := inspected r + 1, addressIssues := addressIssues r + 1,
       requests := requests r @ [GetOrders num, AddTag (orderId ssOrder) tagId],
       newlyTagged := newlyTagged r + 1,
       run_db := markProcessed
         \<lparr>shopifyOrderGid = o_id ord, shopifyOrderName = o_name ord,
          shipstationOrderId = Some (orderId ssOrder), m_status = ''tagged'',
          m_note = Some (''Tagged '' @ ADDRESS_ISSUE_TAG_NAME cfg @ '' (Shopify validation=''
             @ normalize (summary_of ord) @ '')'')\<rparr> (db_now w) (run_db r)\<rparr>"
  using assms by (simp add: process_order_def)

lemma process_order_error:
  assumes "isShopifyAddressIssue ord" and "\<not> wasProcessed (run_db r) (o_id ord)"
    and "orderNumberFromShopifyName (o_name ord) = num" and "num \<noteq> []"
    and "findShipStationOrder (get_orders w) num = Some ssOrder"
    and "add_tag w (orderId ssOrder) tagId = Rejected e"
  shows "process_order cfg w tagId ord r =
     r\<lparr>inspected := inspected r + 1, addressIssues := addressIssues r + 1,
       requests := requests r @ [GetOrders num, AddTag (orderId ssOrder) tagId],
       errors := errors r + 1,
       run_db := markProcessed
         \<lparr>shopifyOrderGid = o_id ord, shopifyOrderName = o_name ord,
          shipstationOrderId = None, m_status = ''error'',
          m_note = Some (error_msg e)\<rparr> (db_now w) (run_db r)\<rparr>"
  using assms by (simp add: process_order_def)

lemma inspected_process_order: "inspected (process_order cfg w tagId ord r) = inspected r + 1"
  by (simp add: process_order_def Let_def split: option.splits http.splits)

lemma inspected_poll_loop:
  "inspected (poll_loop cfg ws tagId k orders r) = inspected r + length orders"
  by (induction orders arbitrary: k r) (simp_all add: inspected_process_order)

lemma processed_process_order_grows:
  "\<exists>new. processed (run_db (process_order cfg w tagId ord r)) = processed (run_db r) @ new"
  using run_db_process_order_cases [of cfg w tagId ord r]
  by (auto simp: processed_markProcessed_new)

lemma processed_poll_loop_grows:
  "\<exists>new. processed (run_db (poll_loop cfg ws tagId k orders r)) = processed (run_db r) @ new"
proof (induction orders arbitrary: k r)
  case Nil
  then show ?case by simp
next
  case (Cons x xs)
  obtain n1 where n1: "processed (run_db (process_order cfg (ws k) tagId x r)) =
      processed (run_db r) @ n1"
    using processed_process_order_grows by blast
  obtain n2 where "processed (run_db (poll_loop cfg ws tagId (Suc k) xs
        (process_order cfg (ws k) tagId x r))) =
      processed (run_db (process_order cfg (ws k) tagId x r)) @ n2"
    using Cons.IH by blast
  with n1 show ?case by simp
qed

lemma pollOnce_keeps_rows:
  assumes "pollOnce cfg w tagId db = Some (Inr res)"
  shows "take (length (processed db)) (processed (run_db res)) = processed db"
proof -
  obtain orders where f: "fetchShopifyOrdersUpdatedSince w (since_of cfg w db) = Some (Inr orders)"
    using assms by (rule pollOnce_Inr_fetched)
  obtain new where "processed (run_db (poll_loop cfg (per_order w) tagId 0 orders (start_run db)))
      = processed (run_db (start_run db)) @ new"
    using processed_poll_loop_grows by blast
  with assms show ?thesis
    by (auto simp: pollOnce_fetched [OF f] processed_setState start_run_def)
qed

lemma scan_order_already:
  "orderId sord \<noteq> 0 \<Longrightarrow> isAddressVerificationFailed sord \<Longrightarrow>
   wasProcessed_srv (scan_rows sr) (orderId sord) \<Longrightarrow>
   scan_order tag now tagId sord sr =
     sr\<lparr>foundFailed := foundFailed sr + 1, srv_skippedAlready := srv_skippedAlready sr + 1\<rparr>"
  by (simp add: scan_order_def)

section \<open>Pagination\<close>

lemma fetch_pages_rejected:
  "post page after = Rejected e \<Longrightarrow> fetch_pages post after page results = Some (Inl e)"
  by (subst fetch_pages.simps) simp

lemma fetch_pages_next:
  assumes "post page after = Resolved body" and "gql_errors body = None"
    and "pageInfo_of body = Some pi" and "hasNextPage pi"
  shows "fetch_pages post after page results =
     fetch_pages post (endCursor pi) (page + 1) (results @ edges_of body)"
  using assms by (subst fetch_pages.simps) simp

section \<open>The scheduler's events\<close>

lemma unset_means_first_pass:
  "(\<not> interval_set s \<and> \<not> exited s \<longrightarrow> passes_running s = 1) \<Longrightarrow>
   \<not> interval_set (foldl on_event s es) \<and> \<not> exited (foldl on_event s es) \<longrightarrow>
     passes_running (foldl on_event s es) = 1"
proof (induction es arbitrary: s)
  case Nil
  then show ?case by simp
next
  case (Cons ev es)
  have "\<not> interval_set (on_event s ev) \<and> \<not> exited (on_event s ev) \<longrightarrow>
      passes_running (on_event s ev) = 1"
    using Cons.prems by (cases ev) auto
  then show ?case using Cons.IH by simp
qed

lemma ticks_add_passes:
  "interval_set s \<Longrightarrow> \<not> exited s \<Longrightarrow>
   passes_running (foldl on_event s (replicate n IntervalElapsed)) = passes_running s + n"
  by (induction n arbitrary: s) simp_all

section \<open>The examples, evaluated\<close>

lemmas example_defs = example_cfg_def shopify_order_with_def shipstation_order_with_def
  order_1001_def order_hash_def row_1001_def db_seen_def srv_row_501_def tagged_args_def
  ss_down_def ss_has_1001_def last_page_def more_page_def world_ok_def world_later_def
  world_fetch_fails_def pass_ok_result_def pass_later_result_def scan_seen_def failed_501_def
  history_3_def db_marked_def ss_empty_def world_slow_def world_fast_def slow_locals_def
  fast_locals_def after_slow_loop_def after_fast_store_def after_slow_store_def
  padded_warning_def order_nbsp_def

lemma fetch_world_ok:
  "fetchShopifyOrdersUpdatedSince world_ok t = Some (Inr [order_1001, order_hash])"
  by (simp add: fetchShopifyOrdersUpdatedSince_def fetch_pages.simps world_ok_def last_page_def
      pageInfo_of_def edges_of_def)

lemma fetch_world_later:
  "fetchShopifyOrdersUpdatedSince world_later t = Some (Inr [order_1001, order_hash])"
  by (simp add: fetchShopifyOrdersUpdatedSince_def fetch_pages.simps world_later_def last_page_def
      pageInfo_of_def edges_of_def)

lemma fetch_world_fetch_fails:
  "fetchShopifyOrdersUpdatedSince world_fetch_fails t =
     Some (Inl (Error ''Request failed with status code 503''))"
  by (simp add: fetchShopifyOrdersUpdatedSince_def fetch_pages.simps world_fetch_fails_def
      more_page_def pageInfo_of_def edges_of_def)

lemma issue_order_1001: "isShopifyAddressIssue order_1001"
  by (simp add: isShopifyAddressIssue_def summary_of_def normalize_def order_1001_def
      shopify_order_with_def case_eval)

lemma issue_order_hash: "isShopifyAddressIssue order_hash"
  by (simp add: isShopifyAddressIssue_def summary_of_def normalize_def order_hash_def
      shopify_order_with_def case_eval)

lemma number_order_1001: "orderNumberFromShopifyName (o_name order_1001) = ''1001''"
  by (simp add: orderNumberFromShopifyName_def order_1001_def shopify_order_with_def
      trim_def isWhiteSpace_def)

lemma number_order_hash: "orderNumberFromShopifyName (o_name order_hash) = []"
  by (simp add: orderNumberFromShopifyName_def order_hash_def shopify_order_with_def
      trim_def isWhiteSpace_def)

lemmas run_eval = process_order_def isShopifyAddressIssue_def summary_of_def normalize_def
  orderNumberFromShopifyName_def findShipStationOrder_def wasProcessed_def markProcessed_def
  setState_def getState_def start_run_def initDatabase_def id_or_null_def note_or_null_def
  error_msg_def Error_def since_of_def isoMinutesAgo_def Let_def

lemmas pass_eval = pollOnce_def fetchShopifyOrdersUpdatedSince_def fetch_pages.simps
  pageInfo_of_def edges_of_def db_after_def

lemma pass_ok_first: "pollOnce example_cfg world_ok 7 initDatabase = Some (Inr pass_ok_result)"
  by (simp add: pass_eval run_eval example_defs case_eval)

lemma pass_later_seen: "pollOnce example_cfg world_later 7 db_seen = Some (Inr pass_later_result)"
  by (simp add: pass_eval run_eval example_defs case_eval)

lemma was_1001_seen: "wasProcessed db_seen ''gid-1001''"
  by (simp add: wasProcessed_def example_defs)

lemma fetch_world_slow:
  "fetchShopifyOrdersUpdatedSince world_slow t = Some (Inr [order_1001])"
  by (simp add: fetchShopifyOrdersUpdatedSince_def fetch_pages.simps world_slow_def last_page_def
      pageInfo_of_def edges_of_def)

lemma fetch_world_fast:
  "fetchShopifyOrdersUpdatedSince world_fast t = Some (Inr [order_1001])"
  by (simp add: fetchShopifyOrdersUpdatedSince_def fetch_pages.simps world_fast_def last_page_def
      pageInfo_of_def edges_of_def)

lemma overlap_fetches:
  "pass_fetch example_cfg world_slow db_marked = Some (Inr slow_locals)"
  "pass_fetch example_cfg world_fast after_slow_loop = Some (Inr fast_locals)"
  by (simp_all add: pass_fetch_def fetch_world_slow fetch_world_fast slow_locals_def
      fast_locals_def) (simp_all add: world_slow_def world_fast_def)

lemma overlap_stores:
  "getState after_fast_store ''last_shopify_poll_iso'' = Some 5400"
  "getState after_slow_store ''last_shopify_poll_iso'' = Some 5200"
  by (simp_all add: after_fast_store_def after_slow_store_def getState_pass_store
      slow_locals_def fast_locals_def)

lemma overlap_ledger:
  "map status (processed after_slow_loop) = [''not_found'']"
  "processed after_slow_store = processed after_slow_loop"
  by (simp_all add: after_slow_store_def after_fast_store_def after_slow_loop_def pass_store_def
      pass_loop_def run_eval example_defs case_eval)

lemma history_fail_then_later:
  "getState (foldl apply_action db_seen
      [Pass example_cfg world_fetch_fails 7, Pass example_cfg world_later 7])
     ''last_shopify_poll_iso'' = Some 8200"
proof -
  have "pollOnce example_cfg world_fetch_fails 7 db_seen =
      Some (Inl (Error ''Request failed with status code 503'', db_seen))"
    by (rule pollOnce_rejected) (rule fetch_world_fetch_fails)
  then show ?thesis
    by (simp add: db_after_def pass_later_seen) (simp add: getState_def pass_later_result_def)
qed

lemma issue_order_nbsp: "isShopifyAddressIssue order_nbsp"
  by (simp add: isShopifyAddressIssue_def summary_of_def normalize_def order_nbsp_def
      shopify_order_with_def case_eval)

lemma number_order_nbsp: "orderNumberFromShopifyName (o_name order_nbsp) = []"
  by (simp add: orderNumberFromShopifyName_def order_nbsp_def shopify_order_with_def
      trim_def isWhiteSpace_def)

section \<open>The claims of the specification\<close>

subsection \<open>Classifiers\<close>

text \<open>
  C1 (amended). Each classifier is exact, for every order, on its own vendor's words and
  whatever the case of the letters. \<open>isShopifyAddressIssue\<close> is true exactly when the
  order has a summary that, trimmed, is \<open>WARNING\<close> or \<open>ERROR\<close> in capitals or small
  letters: so for the warning and the failed value of Shopify, and not for \<open>NO_ISSUES\<close>,
  for any other text, or for a null or missing summary or shipping address.
  \<open>isAddressVerificationFailed\<close> is true exactly when the order has an \<open>addressVerified\<close>
  that is \<open>Address validation failed\<close> in capitals or small letters: so for the failed
  value of ShipStation, and not for its three other values, the warning value among
  them, for any other text, or for a null or missing field.
\<close>

theorem classifier_by_vendor:
  "(isShopifyAddressIssue ord \<longleftrightarrow>
      (\<exists>s. summary_of ord = Some s
         \<and> (toUpperCase (trim s) = units ''WARNING'' \<or> toUpperCase (trim s) = units ''ERROR'')))
   \<and> (isShopifyAddressIssue ord \<longleftrightarrow>
      (\<exists>s. summary_of ord = Some s
         \<and> (toLowerCase (trim s) = ''warning'' \<or> toLowerCase (trim s) = ''error'')))
   \<and> (isAddressVerificationFailed sord \<longleftrightarrow>
      (\<exists>s. addressVerified_of sord = Some s \<and> toLowerCase s = ''address validation failed''))
   \<and> (same_ignoring_case (summary_of ord) (shopify_value st) \<longrightarrow>
      isShopifyAddressIssue ord = has_address_issue st)
   \<and> (shippingAddress ord = None \<or> summary_of ord = None \<longrightarrow> \<not> isShopifyAddressIssue ord)
   \<and> (same_ignoring_case (addressVerified_of sord) (shipstation_value st') \<longrightarrow>
      isAddressVerificationFailed sord = (st' = Failed))
   \<and> (shipTo sord = None \<or> addressVerified_of sord = None \<longrightarrow>
      \<not> isAddressVerificationFailed sord)"
proof -
  have low: "isShopifyAddressIssue ord \<longleftrightarrow>
      (\<exists>s. summary_of ord = Some s
         \<and> (toLowerCase (trim s) = ''warning'' \<or> toLowerCase (trim s) = ''error''))"
    by (cases "summary_of ord")
      (simp_all add: isShopifyAddressIssue_lower normalize_def trim_def toLowerCase_def)
  have up: "isShopifyAddressIssue ord \<longleftrightarrow>
      (\<exists>s. summary_of ord = Some s
         \<and> (toUpperCase (trim s) = units ''WARNING'' \<or> toUpperCase (trim s) = units ''ERROR''))"
    unfolding low by (simp add: upper_is_WARNING upper_is_ERROR)
  have fl: "toLowerCase ADDRESS_FAILED_VALUE = ''address validation failed''"
    by (simp add: ADDRESS_FAILED_VALUE_def toLowerCase_def toLowerChar_def letter_defs)
  have ss: "isAddressVerificationFailed sord \<longleftrightarrow>
      (\<exists>s. addressVerified_of sord = Some s \<and> toLowerCase s = ''address validation failed'')"
    by (cases "addressVerified_of sord")
      (simp_all add: isAddressVerificationFailed_def fl, simp add: toLowerCase_def)
  have a: "addressVerified_of sord = None" if "shipTo sord = None"
    using that by (simp add: addressVerified_of_def)
  have b: "summary_of ord = None" if "shippingAddress ord = None"
    using that by (simp add: summary_of_def)
  have c: "\<not> isShopifyAddressIssue ord" if "summary_of ord = None"
    using that low by simp
  show ?thesis
    using low up ss a b c shopify_issue_iff [of ord st] shipstation_failed_iff [of sord st']
      null_not_failed [of sord]
    by blast
qed

text \<open>
  The theorem at \<open>Warning\<close> in mixed case, at a warning between white space, at
  \<open>verified\<close>, at the failed text in capitals, at Shopify's word given to the ShipStation
  classifier, and at missing fields.
\<close>

theorem classifier_by_vendor_witness:
  "isShopifyAddressIssue (shopify_order_with ''gid-1'' ''#1'' (Some ''Warning''))
   \<and> isShopifyAddressIssue (shopify_order_with ''gid-1'' ''#1'' (Some padded_warning))
   \<and> \<not> isShopifyAddressIssue (shopify_order_with ''gid-1'' ''#1'' (Some ''verified''))
   \<and> \<not> isShopifyAddressIssue (shopify_order_with ''gid-1'' ''#1'' None)
   \<and> isAddressVerificationFailed (shipstation_order_with 1 (Some ''ADDRESS VALIDATION FAILED''))
   \<and> \<not> isAddressVerificationFailed (shipstation_order_with 1 (Some ''WARNING''))
   \<and> \<not> isAddressVerificationFailed (shipstation_order_with 1 None)"
proof -
  have a: "same_ignoring_case
      (summary_of (shopify_order_with ''gid-1'' ''#1'' (Some ''Warning''))) (shopify_value Warning)"
    by (simp add: same_ignoring_case_def summary_of_def shopify_order_with_def case_eval)
  have b: "same_ignoring_case
      (addressVerified_of (shipstation_order_with 1 (Some ''ADDRESS VALIDATION FAILED'')))
      (shipstation_value Failed)"
    by (simp add: same_ignoring_case_def addressVerified_of_def shipstation_order_with_def case_eval)
  have c: "addressVerified_of (shipstation_order_with 1 v) = v" for v
    by (simp add: addressVerified_of_def shipstation_order_with_def)
  have d: "summary_of (shopify_order_with ''gid-1'' ''#1'' v) = v" for v
    by (simp add: summary_of_def shopify_order_with_def)
  have e: "toLowerCase (trim padded_warning) = ''warning''"
    "toLowerCase (trim ''verified'') = ''verified''"
    "toLowerCase ''WARNING'' = ''warning''"
    by (simp_all add: padded_warning_def case_eval)
  note t1 = classifier_by_vendor
      [where ord = "shopify_order_with ''gid-1'' ''#1'' (Some ''Warning'')" and st = Warning
        and sord = "shipstation_order_with 1 (Some ''ADDRESS VALIDATION FAILED'')" and st' = Failed]
  note t2 = classifier_by_vendor
      [where ord = "shopify_order_with ''gid-1'' ''#1'' (Some padded_warning)" and st = Warning
        and sord = "shipstation_order_with 1 (Some ''WARNING'')" and st' = Failed]
  note t3 = classifier_by_vendor
      [where ord = "shopify_order_with ''gid-1'' ''#1'' (Some ''verified'')" and st = Warning
        and sord = "shipstation_order_with 1 None" and st' = Failed]
  note t4 = classifier_by_vendor
      [where ord = "shopify_order_with ''gid-1'' ''#1'' None" and st = Warning
        and sord = "shipstation_order_with 1 None" and st' = Failed]
  note second = conjunct2 [THEN conjunct1]
  note third = conjunct2 [THEN conjunct2, THEN conjunct1]
  note fourth = conjunct2 [THEN conjunct2, THEN conjunct2, THEN conjunct1]
  note fifth = conjunct2 [THEN conjunct2, THEN conjunct2, THEN conjunct2, THEN conjunct1]
  note sixth = conjunct2 [THEN conjunct2, THEN conjunct2, THEN conjunct2, THEN conjunct2,
      THEN conjunct1]
  note seventh = conjunct2 [THEN conjunct2, THEN conjunct2, THEN conjunct2, THEN conjunct2,
      THEN conjunct2]
  have w1: "isShopifyAddressIssue (shopify_order_with ''gid-1'' ''#1'' (Some ''Warning''))"
    using t1 [THEN fourth] a by (simp add: has_address_issue_def)
  have w2: "isShopifyAddressIssue (shopify_order_with ''gid-1'' ''#1'' (Some padded_warning))"
    using t2 [THEN second] by (simp add: d e)
  have w3: "\<not> isShopifyAddressIssue (shopify_order_with ''gid-1'' ''#1'' (Some ''verified''))"
    using t3 [THEN second] by (simp add: d e)
  have w4: "\<not> isShopifyAddressIssue (shopify_order_with ''gid-1'' ''#1'' None)"
    using t4 [THEN fifth] by (simp add: d)
  have w5: "isAddressVerificationFailed
      (shipstation_order_with 1 (Some ''ADDRESS VALIDATION FAILED''))"
    using t1 [THEN sixth] b by simp
  have w6: "\<not> isAddressVerificationFailed (shipstation_order_with 1 (Some ''WARNING''))"
    using t2 [THEN third] by (simp add: c e)
  have w7: "\<not> isAddressVerificationFailed (shipstation_order_with 1 None)"
    using t3 [THEN seventh] by (simp add: c)
  from w1 w2 w3 w4 w5 w6 w7 show ?thesis by blast
qed

text \<open>
  As the specification words it, both classifiers accept the warning and the failed
  values. The ShipStation classifier compares with \<open>ADDRESS_FAILED_VALUE\<close> alone and rejects
  ShipStation's warning value; and each classifier rejects the other vendor's words.
\<close>

theorem classifier_counterexample:
  "isAddressVerificationFailed (shipstation_order_with 1 (shipstation_value Warning))
     \<noteq> has_address_issue Warning
   \<and> \<not> isAddressVerificationFailed (shipstation_order_with 1 (Some ''WARNING''))
   \<and> \<not> isShopifyAddressIssue
         (shopify_order_with ''gid-1'' ''#1'' (Some ''Address validation failed''))"
  by (simp add: isAddressVerificationFailed_def addressVerified_of_def ADDRESS_FAILED_VALUE_def
      isShopifyAddressIssue_def summary_of_def normalize_def
      has_address_issue_def shipstation_order_with_def shopify_order_with_def case_eval)

subsection \<open>One ledger row for each source identifier\<close>



subsection \<open>The watermark\<close>

text \<open>
  C3 (amended). A pass that completes stores as watermark the reading of the clock that
  \<open>newSince\<close> took, which is taken when the fetch from Shopify has returned and before
  the orders are processed; it is neither the time at which the pass began nor a time
  of any order. The fetch of that pass asked for the orders updated since the watermark
  stored before. Over passes that run one after another, with readings of the clock that
  do not decrease, the watermark does not move backward. The final \<open>setState\<close> of a pass
  stores that pass's own reading whatever is stored then, so of two passes that overlap
  the one that read the clock first can store last, and the watermark moves backward.
\<close>

theorem watermark_is_clock_after_fetch:
  "(pollOnce cfg w tagId db = Some (Inr res) \<longrightarrow>
      getState (run_db res) ''last_shopify_poll_iso'' = Some (clock_after_fetch w)
      \<and> (\<exists>orders. fetchShopifyOrdersUpdatedSince w (since_of cfg w db) = Some (Inr orders))
      \<and> (\<forall>t. getState db ''last_shopify_poll_iso'' = Some t \<longrightarrow> since_of cfg w db = t))
   \<and> (getState db ''last_shopify_poll_iso'' = Some t \<and> sorted (t # readings acts) \<longrightarrow>
      (\<exists>t'. getState (foldl apply_action db acts) ''last_shopify_poll_iso'' = Some t' \<and> t \<le> t'))
   \<and> pollOnce cfg w tagId db =
       (case pass_fetch cfg w db of
          None \<Rightarrow> None
        | Some (Inl e) \<Rightarrow> Some (Inl (e, db))
        | Some (Inr l) \<Rightarrow>
            Some (Inr ((pass_loop cfg w tagId l db)
              \<lparr>run_db := pass_store w l (run_db (pass_loop cfg w tagId l db))\<rparr>)))
   \<and> getState (pass_store w l db') ''last_shopify_poll_iso'' = Some (pl_newSince l)"
proof -
  have one: "getState (run_db res) ''last_shopify_poll_iso'' = Some (clock_after_fetch w)
      \<and> (\<exists>orders. fetchShopifyOrdersUpdatedSince w (since_of cfg w db) = Some (Inr orders))
      \<and> (\<forall>t. getState db ''last_shopify_poll_iso'' = Some t \<longrightarrow> since_of cfg w db = t)"
    if a: "pollOnce cfg w tagId db = Some (Inr res)"
  proof -
    obtain orders where
      f: "fetchShopifyOrdersUpdatedSince w (since_of cfg w db) = Some (Inr orders)"
      using a by (rule pollOnce_Inr_fetched)
    have "since_of cfg w db = t" if "getState db ''last_shopify_poll_iso'' = Some t" for t
      using that by (simp add: since_of_def)
    with f getState_after_pass [OF a] show ?thesis by simp
  qed
  have two: "\<exists>t'. getState (foldl apply_action db acts) ''last_shopify_poll_iso'' = Some t' \<and> t \<le> t'"
    if "getState db ''last_shopify_poll_iso'' = Some t" and "sorted (t # readings acts)"
    using that by (rule watermark_sequential)
  show ?thesis
    using one two pollOnce_in_stretches [of cfg w tagId db] getState_pass_store [of w l db']
    by blast
qed

text \<open>
  A pass on a database whose watermark is 1000, with the clock at 8200 after the fetch;
  and a history of a pass whose fetch fails and of that pass.
\<close>

theorem watermark_is_clock_after_fetch_witness:
  "pollOnce example_cfg world_later 7 db_seen = Some (Inr pass_later_result)
   \<and> getState db_seen ''last_shopify_poll_iso'' = Some 1000
   \<and> getState (run_db pass_later_result) ''last_shopify_poll_iso'' = Some 8200
   \<and> clock_after_fetch world_later = 8200
   \<and> since_of example_cfg world_later db_seen = 1000
   \<and> readings [Pass example_cfg world_fetch_fails 7, Pass example_cfg world_later 7] = [5200, 8200]
   \<and> getState (foldl apply_action db_seen
        [Pass example_cfg world_fetch_fails 7, Pass example_cfg world_later 7])
       ''last_shopify_poll_iso'' = Some 8200"
proof -
  have g: "getState db_seen ''last_shopify_poll_iso'' = Some 1000"
    "clock_after_fetch world_later = 8200"
    by (simp_all add: getState_def db_seen_def world_later_def)
  have r: "readings [Pass example_cfg world_fetch_fails 7, Pass example_cfg world_later 7] =
      [5200, 8200]"
    by (simp add: readings_def world_fetch_fails_def world_later_def)
  note t = watermark_is_clock_after_fetch
      [where cfg = example_cfg and w = world_later and tagId = 7 and db = db_seen
        and res = pass_later_result and t = 1000
        and acts = "[Pass example_cfg world_fetch_fails 7, Pass example_cfg world_later 7]"]
  have one: "getState (run_db pass_later_result) ''last_shopify_poll_iso'' = Some 8200
      \<and> since_of example_cfg world_later db_seen = 1000"
    using t [THEN conjunct1] pass_later_seen g by simp
  have "sorted (1000 # readings
      [Pass example_cfg world_fetch_fails 7, Pass example_cfg world_later 7])"
    by (simp add: r)
  with t [THEN conjunct2, THEN conjunct1] g(1)
  have "\<exists>t'. getState (foldl apply_action db_seen
        [Pass example_cfg world_fetch_fails 7, Pass example_cfg world_later 7])
       ''last_shopify_poll_iso'' = Some t' \<and> 1000 \<le> t'"
    by blast
  with one pass_later_seen g r history_fail_then_later show ?thesis by simp
qed

text \<open>
  As the specification words it, the new watermark is the start time of the pass, not
  the time at which the fetch completed, and the watermark never moves backward. In the
  first pass here the banner "Poll started" reads the clock at 5000, the fetch has
  returned at 5200, and 5200 is stored. In the two passes that overlap every reading of
  the clock is later than the one before, the fast pass stores 5400, and the slow pass
  then stores 5200.
\<close>

theorem watermark_counterexample:
  "pollOnce example_cfg world_ok 7 initDatabase = Some (Inr pass_ok_result)
   \<and> getState (run_db pass_ok_result) ''last_shopify_poll_iso'' = Some 5200
   \<and> clock_poll_started world_ok = 5000
   \<and> pass_fetch example_cfg world_slow db_marked = Some (Inr slow_locals)
   \<and> pass_fetch example_cfg world_fast after_slow_loop = Some (Inr fast_locals)
   \<and> clock_poll_started world_slow = 5000 \<and> pl_newSince slow_locals = 5200
   \<and> clock_poll_started world_fast = 5300 \<and> pl_newSince fast_locals = 5400
   \<and> getState after_fast_store ''last_shopify_poll_iso'' = Some 5400
   \<and> getState after_slow_store ''last_shopify_poll_iso'' = Some 5200"
proof -
  have "getState (run_db pass_ok_result) ''last_shopify_poll_iso'' = Some 5200"
    "clock_poll_started world_ok = 5000"
    "clock_poll_started world_slow = 5000" "pl_newSince slow_locals = 5200"
    "clock_poll_started world_fast = 5300" "pl_newSince fast_locals = 5400"
    by (simp_all add: getState_def pass_ok_result_def world_ok_def world_slow_def world_fast_def
        slow_locals_def fast_locals_def)
  with pass_ok_first overlap_fetches overlap_stores show ?thesis by simp
qed

subsection \<open>A failed lookup in ShipStation\<close>

text \<open>
  C4 (amended). When the request that looks an order up in ShipStation by its business
  number is rejected, \<open>findShipStationOrder\<close> catches the rejection and returns no order.
  The order is then recorded with status \<open>not_found\<close> and the note
  \<open>Not found in ShipStation yet\<close>; the counter of orders not found is incremented and the
  counter of errors is not. The pass is not aborted: a pass whose fetch from Shopify
  succeeded completes and inspects every fetched order, whatever ShipStation answers.
\<close>

theorem lookup_failure_is_not_found:
  assumes "isShopifyAddressIssue ord" and "\<not> wasProcessed (run_db r) (o_id ord)"
    and "orderNumberFromShopifyName (o_name ord) = num" and "num \<noteq> []"
    and "get_orders w num = Rejected e"
    and "fetchShopifyOrdersUpdatedSince pw (since_of cfg pw db) = Some (Inr orders)"
  shows "process_order cfg w tagId ord r =
     r\<lparr>inspected := inspected r + 1, addressIssues := addressIssues r + 1,
       requests := requests r @ [GetOrders num],
       notInShipStation := notInShipStation r + 1,
       run_db := markProcessed
         \<lparr>shopifyOrderGid = o_id ord, shopifyOrderName = o_name ord,
          shipstationOrderId = None, m_status = ''not_found'',
          m_note = Some ''Not found in ShipStation yet''\<rparr> (db_now w) (run_db r)\<rparr>
     \<and> (\<exists>res. pollOnce cfg pw tagId db = Some (Inr res) \<and> inspected res = length orders)"
proof -
  have "findShipStationOrder (get_orders w) num = None"
    using assms(5) by (simp add: findShipStationOrder_def)
  then show ?thesis
    using assms(1-4)
    by (simp add: process_order_not_found pollOnce_fetched [OF assms(6)] inspected_poll_loop
        start_run_def)
qed

text \<open>
  Order 1001 while every request to ShipStation times out.
\<close>

theorem lookup_failure_is_not_found_witness:
  "get_orders ss_down ''1001'' = Rejected (Error ''timeout of 15000ms exceeded'')
   \<and> process_order example_cfg ss_down 7 order_1001 (start_run initDatabase) =
     \<lparr>run_db = \<lparr>state_tbl = [], processed = processed (run_db pass_ok_result)\<rparr>,
      inspected = 1, addressIssues = 1, newlyTagged = 0, notInShipStation = 1,
      skippedAlready = 0, errors = 0, requests = [GetOrders ''1001'']\<rparr>
   \<and> (\<exists>res. pollOnce example_cfg world_ok 7 initDatabase = Some (Inr res) \<and> inspected res = 2)"
proof -
  have h: "\<not> wasProcessed (run_db (start_run initDatabase)) (o_id order_1001)"
      "''1001'' \<noteq> []"
      "get_orders ss_down ''1001'' = Rejected (Error ''timeout of 15000ms exceeded'')"
    by (simp_all add: wasProcessed_def start_run_def initDatabase_def ss_down_def)
  note t = lookup_failure_is_not_found [OF issue_order_1001 h(1) number_order_1001 h(2,3)
        fetch_world_ok, where cfg = example_cfg and db = initDatabase and tagId = 7]
  have a: "process_order example_cfg ss_down 7 order_1001 (start_run initDatabase) =
     \<lparr>run_db = \<lparr>state_tbl = [], processed = processed (run_db pass_ok_result)\<rparr>,
      inspected = 1, addressIssues = 1, newlyTagged = 0, notInShipStation = 1,
      skippedAlready = 0, errors = 0, requests = [GetOrders ''1001'']\<rparr>"
    using t by (simp add: run_eval example_defs)
  have len: "length [order_1001, order_hash] = 2" by simp
  have b: "\<exists>res. pollOnce example_cfg world_ok 7 initDatabase = Some (Inr res) \<and> inspected res = 2"
    using t unfolding len by blast
  show ?thesis
    using a b h(3) by blast
qed

text \<open>
  As the specification words it, the failed lookup is recorded with status \<open>error\<close> and
  the error detail as the note. Here the lookup is rejected with a timeout, and the
  row written has status \<open>not_found\<close>, the fixed note, and no error is counted.
\<close>

theorem lookup_failure_counterexample:
  "get_orders ss_down ''1001'' = Rejected (Error ''timeout of 15000ms exceeded'')
   \<and> map status (processed (run_db
        (process_order example_cfg ss_down 7 order_1001 (start_run initDatabase)))) = [''not_found'']
   \<and> map note_text (processed (run_db
        (process_order example_cfg ss_down 7 order_1001 (start_run initDatabase)))) =
        [Some ''Not found in ShipStation yet'']
   \<and> errors (process_order example_cfg ss_down 7 order_1001 (start_run initDatabase)) = 0"
  by (simp add: run_eval example_defs case_eval)

subsection \<open>A failed fetch from Shopify\<close>

text \<open>
  C5 (amended). When the fetch of the source orders raises an error, the pass is
  rejected with that error before anything is written: the database, and so the stored
  watermark, is as it was before the pass. When a watermark is stored, the next pass
  scans from the same "since" as the failed one. When none is stored (a first run), the
  next pass computes its "since" anew, from its own reading of the clock less the
  lookback. A request that is rejected ends the fetch with that rejection, at whichever
  page.
\<close>

theorem failed_fetch_keeps_watermark:
  assumes "fetchShopifyOrdersUpdatedSince w (since_of cfg w db) = Some (Inl e)"
  shows "pollOnce cfg w tagId db = Some (Inl (e, db))
     \<and> db_after db (pollOnce cfg w tagId db) = db
     \<and> getState (db_after db (pollOnce cfg w tagId db)) ''last_shopify_poll_iso'' =
         getState db ''last_shopify_poll_iso''
     \<and> (\<forall>s. getState db ''last_shopify_poll_iso'' = Some s \<longrightarrow>
          since_of cfg w' (db_after db (pollOnce cfg w tagId db)) = since_of cfg w db)
     \<and> (getState db ''last_shopify_poll_iso'' = None \<longrightarrow>
          since_of cfg w' (db_after db (pollOnce cfg w tagId db)) =
            clock_first_run w' - LOOKBACK_MINUTES_ON_FIRST_RUN cfg * 60 * 1000)
     \<and> (shopify_post w t page after = Rejected e' \<longrightarrow>
          fetch_pages (shopify_post w t) after page results = Some (Inl e'))"
  by (simp add: pollOnce_rejected [OF assms] db_after_def fetch_pages_rejected since_of_def
      isoMinutesAgo_def)

text \<open>
  A pass whose second page request is rejected with status 503, on a database whose
  watermark is 1000.
\<close>

theorem failed_fetch_keeps_watermark_witness:
  "pollOnce example_cfg world_fetch_fails 7 db_seen =
     Some (Inl (Error ''Request failed with status code 503'', db_seen))
   \<and> getState (db_after db_seen (pollOnce example_cfg world_fetch_fails 7 db_seen))
        ''last_shopify_poll_iso'' = Some 1000
   \<and> since_of example_cfg world_fetch_fails db_seen = 1000
   \<and> since_of example_cfg world_later
        (db_after db_seen (pollOnce example_cfg world_fetch_fails 7 db_seen)) = 1000"
proof -
  have g: "getState db_seen ''last_shopify_poll_iso'' = Some 1000"
    by (simp add: getState_def db_seen_def)
  then have s: "since_of example_cfg world_fetch_fails db_seen = 1000"
    by (simp add: since_of_def)
  note t = failed_fetch_keeps_watermark [OF fetch_world_fetch_fails,
      where cfg = example_cfg and db = db_seen and tagId = 7 and w' = world_later]
  have p: "pollOnce example_cfg world_fetch_fails 7 db_seen =
      Some (Inl (Error ''Request failed with status code 503'', db_seen))"
    by (rule t [THEN conjunct1])
  have d: "getState (db_after db_seen (pollOnce example_cfg world_fetch_fails 7 db_seen))
      ''last_shopify_poll_iso'' = Some 1000"
    using t [THEN conjunct2, THEN conjunct2, THEN conjunct1] g by simp
  have n: "since_of example_cfg world_later
      (db_after db_seen (pollOnce example_cfg world_fetch_fails 7 db_seen)) = 1000"
    using t [THEN conjunct2, THEN conjunct2, THEN conjunct2, THEN conjunct1] g s by simp
  from p d s n show ?thesis by blast
qed

text \<open>
  As the specification words it, the next pass scans the same "since" window after
  every failed fetch. On a new database the failed pass asked for the orders since its
  clock at 5001 less 24 hours, and the next pass asks since its clock at 8001 less 24
  hours.
\<close>

theorem failed_fetch_counterexample:
  "pollOnce example_cfg world_fetch_fails 7 initDatabase =
     Some (Inl (Error ''Request failed with status code 503'', initDatabase))
   \<and> getState initDatabase ''last_shopify_poll_iso'' = None
   \<and> since_of example_cfg world_fetch_fails initDatabase = - 86394999
   \<and> since_of example_cfg world_later
        (db_after initDatabase (pollOnce example_cfg world_fetch_fails 7 initDatabase))
       = - 86391999"
proof -
  have p: "pollOnce example_cfg world_fetch_fails 7 initDatabase =
      Some (Inl (Error ''Request failed with status code 503'', initDatabase))"
    by (rule pollOnce_rejected) (rule fetch_world_fetch_fails)
  have "getState initDatabase ''last_shopify_poll_iso'' = None"
    by (simp add: getState_def initDatabase_def)
  then show ?thesis
    by (simp add: p db_after_def since_of_def isoMinutesAgo_def)
      (simp add: example_cfg_def world_fetch_fails_def world_later_def)
qed

subsection \<open>Running a pass twice\<close>

text \<open>
  C6. Let a pass complete; put the watermark back to what it was before the pass; and
  let a second pass fetch the same orders, whatever ShipStation answers this time. Then
  the second pass completes, the ledger after it is the ledger after the first pass (no
  row added, no row changed, so no \<open>tagged\<close> row changes its status), and the second
  pass sends no request to ShipStation.
\<close>

theorem second_pass_changes_nothing:
  assumes "pollOnce cfg w1 tagId db = Some (Inr res1)"
    and "fetchShopifyOrdersUpdatedSince w1 (since_of cfg w1 db) = Some (Inr orders)"
    and "db2 = (run_db res1)\<lparr>state_tbl := state_tbl db\<rparr>"
    and "fetchShopifyOrdersUpdatedSince w2 (since_of cfg w2 db2) = Some (Inr orders)"
  shows "\<exists>res2. pollOnce cfg w2 tagId db2 = Some (Inr res2)
     \<and> processed (run_db res2) = processed (run_db res1)
     \<and> requests res2 = []"
proof -
  let ?L1 = "poll_loop cfg (per_order w1) tagId 0 orders (start_run db)"
  let ?L2 = "poll_loop cfg (per_order w2) tagId 0 orders (start_run db2)"
  have p1: "processed (run_db res1) = processed (run_db ?L1)"
    using assms(1) by (auto simp: pollOnce_fetched [OF assms(2)] processed_setState)
  have p2: "processed db2 = processed (run_db ?L1)"
    using assms(3) p1 by simp
  have seen: "wasProcessed (run_db (start_run db2)) (o_id ord)"
    if "ord \<in> set orders" and "needs_entry ord" for ord
  proof -
    have "wasProcessed (run_db ?L1) (o_id ord)"
      using that by (rule poll_loop_enters)
    then show ?thesis
      by (simp add: wasProcessed_gids p2 start_run_def)
  qed
  have "run_db ?L2 = run_db (start_run db2) \<and> requests ?L2 = requests (start_run db2)"
    by (rule poll_loop_settled) (rule seen)
  then have "run_db ?L2 = db2" and "requests ?L2 = []"
    by (simp_all add: start_run_def)
  then show ?thesis
    by (simp add: pollOnce_fetched [OF assms(4)] processed_setState p1 p2)
qed

text \<open>
  The first pass finds ShipStation unreachable; the second one, over the same orders,
  finds the order there, and still leaves the ledger alone.
\<close>

theorem second_pass_changes_nothing_witness:
  "\<exists>res2. pollOnce example_cfg world_later 7
        ((run_db pass_ok_result)\<lparr>state_tbl := state_tbl initDatabase\<rparr>) = Some (Inr res2)
     \<and> processed (run_db res2) = processed (run_db pass_ok_result)
     \<and> map status (processed (run_db res2)) = [''not_found'']
     \<and> requests res2 = []"
proof -
  obtain res2 where r: "pollOnce example_cfg world_later 7
        ((run_db pass_ok_result)\<lparr>state_tbl := state_tbl initDatabase\<rparr>) = Some (Inr res2)"
      "processed (run_db res2) = processed (run_db pass_ok_result)" "requests res2 = []"
    using second_pass_changes_nothing [OF pass_ok_first fetch_world_ok refl fetch_world_later]
    by blast
  then show ?thesis by (simp add: pass_ok_result_def)
qed

subsection \<open>Orders already in the ledger\<close>

text \<open>
  C7. An order that is classified as an address issue and whose identifier has a ledger
  row is skipped: the loop body changes nothing but the counters of inspected orders,
  of issues and of skipped orders (in the ShipStation scanner, of failed and of skipped
  orders), so no row is written, no request is sent and no other counter moves, whatever
  the status of the row. Over a whole pass, every row that was in the ledger before the
  pass is in it, unchanged and at its place, after the pass.
\<close>

theorem already_processed_is_skipped:
  "(isShopifyAddressIssue ord \<and> wasProcessed (run_db r) (o_id ord) \<longrightarrow>
      process_order cfg w tagId ord r =
        r\<lparr>inspected := inspected r + 1, addressIssues := addressIssues r + 1,
          skippedAlready := skippedAlready r + 1\<rparr>)
   \<and> (orderId sord \<noteq> 0 \<and> isAddressVerificationFailed sord
        \<and> wasProcessed_srv (scan_rows sr) (orderId sord) \<longrightarrow>
      scan_order tag now tagId sord sr =
        sr\<lparr>foundFailed := foundFailed sr + 1, srv_skippedAlready := srv_skippedAlready sr + 1\<rparr>)
   \<and> (pollOnce cfg pw tagId db = Some (Inr res) \<longrightarrow>
      take (length (processed db)) (processed (run_db res)) = processed db)"
  using process_order_already [of ord r cfg w tagId]
    scan_order_already [of sord sr tag now tagId]
    pollOnce_keeps_rows [of cfg pw tagId db res]
  by blast

text \<open>
  Order 1001 with a \<open>not_found\<close> row while ShipStation now holds it, the scanner on an
  order it recorded as \<open>error\<close>, and a whole pass over the same ledger.
\<close>

theorem already_processed_is_skipped_witness:
  "process_order example_cfg ss_has_1001 7 order_1001 (start_run db_seen) =
     (start_run db_seen)\<lparr>inspected := 1, addressIssues := 1, skippedAlready := 1\<rparr>
   \<and> scan_order (\<lambda>oid tid. Resolved ()) 9000 7 failed_501 scan_seen =
     scan_seen\<lparr>foundFailed := 1, srv_skippedAlready := 1\<rparr>
   \<and> pollOnce example_cfg world_later 7 db_seen = Some (Inr pass_later_result)
   \<and> processed (run_db pass_later_result) = [row_1001]"
proof -
  have a: "isShopifyAddressIssue order_1001 \<and> wasProcessed (run_db (start_run db_seen)) (o_id order_1001)"
    by (simp add: issue_order_1001 start_run_def was_1001_seen)
      (simp add: order_1001_def shopify_order_with_def was_1001_seen)
  have b: "orderId failed_501 \<noteq> 0 \<and> isAddressVerificationFailed failed_501
      \<and> wasProcessed_srv (scan_rows scan_seen) (orderId failed_501)"
    by (simp add: isAddressVerificationFailed_def addressVerified_of_def ADDRESS_FAILED_VALUE_def
        wasProcessed_srv_def example_defs case_eval)
  show ?thesis
    using a b pass_later_seen
      already_processed_is_skipped [of order_1001 "start_run db_seen" example_cfg ss_has_1001 7
        failed_501 scan_seen "\<lambda>oid tid. Resolved ()" 9000 world_later db_seen pass_later_result]
    by (simp add: start_run_def scan_seen_def db_seen_def pass_later_result_def)
qed

subsection \<open>markProcessed is an upsert\<close>

text \<open>
  C8. \<open>markProcessed\<close> is an upsert keyed by the source identifier. When the ledger holds
  a row for the identifier, that row, and no other, is rewritten: status, note,
  destination id and \<open>updated_at\<close> take the new values (the Shopify poller also rewrites
  the order name; a zero id and an empty note are stored as \<open>NULL\<close>), and \<open>created_at\<close>
  stays. In the ShipStation scanner the key is the destination id itself; there status,
  note and \<open>updated_at\<close> are rewritten.
\<close>

theorem markProcessed_upsert:
  assumes "ledger_ok db" and "i < length (processed db)"
    and "shopify_order_gid (processed db ! i) = shopifyOrderGid a"
    and "distinct (map srv_shipstation_order_id rows)" and "j < length rows"
    and "srv_shipstation_order_id (rows ! j) = oid"
  shows "markProcessed a now db =
           db\<lparr>processed := (processed db)[i := (processed db ! i)
              \<lparr>shopify_order_name := Some (shopifyOrderName a),
               shipstation_order_id := id_or_null (shipstationOrderId a),
               status := m_status a,
               note_text := note_or_null (m_note a),
               updated_at := now\<rparr>]\<rparr>
         \<and> created_at (processed (markProcessed a now db) ! i) = created_at (processed db ! i)
         \<and> markProcessed_srv oid num st nt now rows =
             rows[j := (rows ! j)\<lparr>srv_status := st, srv_note := Some nt, srv_updated_at := now\<rparr>]
         \<and> srv_created_at (markProcessed_srv oid num st nt now rows ! j) = srv_created_at (rows ! j)
         \<and> srv_shipstation_order_id (markProcessed_srv oid num st nt now rows ! j) = oid"
proof -
  have d: "distinct (map shopify_order_gid (processed db))"
    using assms(1) by (simp add: ledger_ok_def)
  show ?thesis
    using assms(2,5,6)
    by (simp add: markProcessed_existing [OF d assms(2,3)]
        markProcessed_srv_existing [OF assms(4,5,6)])
qed

text \<open>
  A \<open>not_found\<close> row of the poller and an \<open>error\<close> row of the scanner, rewritten as
  \<open>tagged\<close> at instant 7000; both were created at instant 10.
\<close>

theorem markProcessed_upsert_witness:
  "markProcessed tagged_args 7000 db_seen =
     db_seen\<lparr>processed :=
       [\<lparr>shopify_order_gid = ''gid-1001'', shopify_order_name = Some ''#1001'',
         shipstation_order_id = Some 501, status = ''tagged'',
         note_text = Some ''Tagged ADDRESS ISSUE (Shopify validation=ERROR)'',
         created_at = 10, updated_at = 7000\<rparr>]\<rparr>
   \<and> markProcessed_srv 501 ''1001'' ''tagged'' ''Tagged ADDRESS ISSUE'' 7000 [srv_row_501] =
     [\<lparr>srv_shipstation_order_id = 501, srv_order_number = Some ''1001'', srv_status = ''tagged'',
       srv_note = Some ''Tagged ADDRESS ISSUE'', srv_created_at = 10, srv_updated_at = 7000\<rparr>]"
proof -
  have h: "ledger_ok db_seen" "0 < length (processed db_seen)"
      "shopify_order_gid (processed db_seen ! 0) = shopifyOrderGid tagged_args"
      "distinct (map srv_shipstation_order_id [srv_row_501])" "0 < length [srv_row_501]"
      "srv_shipstation_order_id ([srv_row_501] ! 0) = 501"
    by (simp_all add: ledger_ok_def example_defs)
  show ?thesis
    using markProcessed_upsert [OF h, where now = 7000 and num = "''1001''"
        and st = "''tagged''" and nt = "''Tagged ADDRESS ISSUE''"]
    by (simp add: example_defs id_or_null_def note_or_null_def)
qed

subsection \<open>Passes started by the interval\<close>

text \<open>
  C9 (amended). The first pass runs alone: until it has settled, no interval is set and
  exactly one pass is running. Once the interval is set, every time it elapses a new
  pass is started, whether or not earlier passes are still running: the scheduler keeps
  no "in progress" flag. So when the interval elapses \<open>n\<close> times while no pass settles,
  \<open>n\<close> more passes are running, and passes overlap whenever a pass takes longer than
  the interval.
\<close>

theorem interval_starts_passes_unguarded:
  "(\<not> interval_set (run_events es) \<and> \<not> exited (run_events es) \<longrightarrow>
       passes_running (run_events es) = 1)
   \<and> (interval_set s \<and> \<not> exited s \<longrightarrow>
        passes_running (on_event s IntervalElapsed) = passes_running s + 1
        \<and> passes_running (foldl on_event s (replicate n IntervalElapsed)) = passes_running s + n)"
proof -
  have "\<not> interval_set (run_events es) \<and> \<not> exited (run_events es) \<longrightarrow>
      passes_running (run_events es) = 1"
    unfolding run_events_def by (rule unset_means_first_pass) (simp add: start_def)
  then show ?thesis by (simp add: ticks_add_passes)
qed

text \<open>
  The first pass alone, then the interval elapsing once and three times after it.
\<close>

theorem interval_starts_passes_unguarded_witness:
  "passes_running (run_events []) = 1
   \<and> interval_set (run_events [PassResolved])
   \<and> passes_running (on_event (run_events [PassResolved]) IntervalElapsed) = 1
   \<and> passes_running (foldl on_event (run_events [PassResolved]) (replicate 3 IntervalElapsed)) = 3"
proof -
  have "\<not> interval_set (run_events [])" and "\<not> exited (run_events [])"
    and "interval_set (run_events [PassResolved])" and "\<not> exited (run_events [PassResolved])"
    and "passes_running (run_events [PassResolved]) = 0"
    by (simp_all add: run_events_def start_def)
  then show ?thesis
    using interval_starts_passes_unguarded [of "[]" "run_events [PassResolved]" 3]
    by simp
qed

text \<open>
  As the specification words it, the scheduler never starts a pass while another is
  running. After the first pass has resolved, an interval that elapses twice before the
  pass it started has settled leaves two passes running.
\<close>

theorem passes_overlap_counterexample:
  "passes_running (run_events [PassResolved, IntervalElapsed, IntervalElapsed]) = 2"
  by (simp add: run_events_def start_def)

subsection \<open>Orders without a business number\<close>

text \<open>
  C10. An order that is classified as an address issue, has no ledger row, and whose
  name gives an empty business number (after the first \<open>#\<close> is removed and the rest
  trimmed) is skipped: the loop body changes nothing but the counters of inspected
  orders and of issues. No row is written, no request is sent to ShipStation, and the
  counters of tagged, not found, skipped and failed orders stay.
\<close>

theorem empty_order_number_is_skipped:
  assumes "isShopifyAddressIssue ord" and "\<not> wasProcessed (run_db r) (o_id ord)"
    and "orderNumberFromShopifyName (o_name ord) = []"
  shows "process_order cfg w tagId ord r =
     r\<lparr>inspected := inspected r + 1, addressIssues := addressIssues r + 1\<rparr>"
  using assms by (rule process_order_no_number)

text \<open>
  An order named \<open>" # "\<close> with a warning, and an order named \<open>#\<close> and a no-break space.
\<close>

theorem empty_order_number_is_skipped_witness:
  "process_order example_cfg ss_has_1001 7 order_hash (start_run initDatabase) =
     (start_run initDatabase)\<lparr>inspected := 1, addressIssues := 1\<rparr>
   \<and> o_name order_hash = '' # ''
   \<and> process_order example_cfg ss_has_1001 7 order_nbsp (start_run initDatabase) =
     (start_run initDatabase)\<lparr>inspected := 1, addressIssues := 1\<rparr>
   \<and> o_name order_nbsp = [CHR ''#'', CHR 0xA0]"
proof -
  have n: "\<not> wasProcessed (run_db (start_run initDatabase)) gid" for gid
    by (simp add: wasProcessed_def start_run_def initDatabase_def)
  have a: "process_order example_cfg ss_has_1001 7 order_hash (start_run initDatabase) =
     (start_run initDatabase)\<lparr>inspected := 1, addressIssues := 1\<rparr>"
    using empty_order_number_is_skipped [OF issue_order_hash n number_order_hash,
        of example_cfg ss_has_1001 7]
    by (simp add: start_run_def)
  have b: "process_order example_cfg ss_has_1001 7 order_nbsp (start_run initDatabase) =
     (start_run initDatabase)\<lparr>inspected := 1, addressIssues := 1\<rparr>"
    using empty_order_number_is_skipped [OF issue_order_nbsp n number_order_nbsp,
        of example_cfg ss_has_1001 7]
    by (simp add: start_run_def)
  from a b show ?thesis
    by (simp add: order_hash_def order_nbsp_def shopify_order_with_def)
qed

end
